theory Spec2Isabelle
  imports Complex_Main "HOL-Library.Sublist"
begin

section \<open>The Kerberos ticket renewer of airflow/security/kerberos.py\<close>

text \<open>
  The module keeps a Kerberos ticket valid by running \<^verbatim>\<open>kinit\<close> from a keytab. It reads
  the configuration, spawns child processes, reads the ticket cache, sleeps, logs, and
  may end the process with \<^verbatim>\<open>sys.exit\<close>. The embedding makes each of these explicit:
  configuration and the outside world are a record of values and of oracles, every
  effect is an event appended to a trace, an exception (or a call that never comes back)
  is the left summand of the result, and the module-level global is a field of the state.
\<close>

subsection \<open>Strings and bytes of the Python standard library\<close>

text \<open>Isabelle characters are bytes; the content of a file opened with mode \<^verbatim>\<open>rb\<close>
  is a list of them.\<close>

type_synonym bytes = "char list"

text \<open>\<^verbatim>\<open>sep.join(xs)\<close>.\<close>

fun join :: "string \<Rightarrow> string list \<Rightarrow> string" where
  "join sep [] = []"
| "join sep [x] = x"
| "join sep (x # y # ys) = x @ sep @ join sep (y # ys)"

text \<open>\<^verbatim>\<open>s.replace(old, new)\<close>: the occurrences of \<open>old\<close> are found from the left and do
  not overlap; an empty \<open>old\<close> matches before every character and at the end.\<close>

function replace :: "string \<Rightarrow> string \<Rightarrow> string \<Rightarrow> string" where
  "replace old new [] = (if old = [] then new else [])"
| "replace old new (c # cs) =
     (if old = [] then new @ c # replace old new cs
      else if prefix old (c # cs) then new @ replace old new (drop (length old) (c # cs))
      else c # replace old new cs)"
  by pat_completeness auto
termination
  by (relation "measure (\<lambda>(old, new, s). length s)") auto

text \<open>\<^verbatim>\<open>needle in haystack\<close> on bytes: the needle occurs at some position.\<close>

fun bytes_in :: "bytes \<Rightarrow> bytes \<Rightarrow> bool" where
  "bytes_in needle [] = (needle = [])"
| "bytes_in needle (c # cs) = (prefix needle (c # cs) \<or> bytes_in needle cs)"

text \<open>\<^verbatim>\<open>str(n)\<close> and the \<^verbatim>\<open>{n}\<close> of an f-string, for an integer: decimal digits, with a
  minus sign for a negative number.\<close>

function str_nat :: "nat \<Rightarrow> string" where
  "str_nat n =
     (if n < 10 then [''0123456789'' ! n]
      else str_nat (n div 10) @ [''0123456789'' ! (n mod 10)])"
  by pat_completeness auto
termination
  by (relation "measure id") auto

definition str_int :: "int \<Rightarrow> string" where
  "str_int i = (if i < 0 then CHR ''-'' # str_nat (nat (- i)) else str_nat (nat i))"

text \<open>\<^verbatim>\<open>shlex.quote\<close>: a string of letters, digits and \<^verbatim>\<open>_@%+=:,./-\<close> is left as it is,
  the empty string becomes two single quotes, anything else is wrapped in single quotes
  with each single quote inside replaced by \<^verbatim>\<open>'"'"'\<close>.\<close>

definition is_safe :: "char \<Rightarrow> bool" where
  "is_safe c =
     (let n = (of_char c :: nat)
      in (48 \<le> n \<and> n \<le> 57) \<or> (65 \<le> n \<and> n \<le> 90) \<or> (97 \<le> n \<and> n \<le> 122)
         \<or> c \<in> set ''_@%+=:,./-'')"

definition shlex_quote :: "string \<Rightarrow> string" where
  "shlex_quote s =
     (if s = [] then [CHR 0x27, CHR 0x27]
      else if list_all is_safe s then s
      else CHR 0x27 # replace [CHR 0x27] [CHR 0x27, CHR 0x22, CHR 0x27, CHR 0x22, CHR 0x27] s
             @ [CHR 0x27])"

text \<open>\<^verbatim>\<open>msg % args\<close> as the logging module applies it, for the only directive the
  module's messages use, \<^verbatim>\<open>%s\<close>: each one takes the next argument.\<close>

fun percent_format :: "string \<Rightarrow> string list \<Rightarrow> string" where
  "percent_format [] args = []"
| "percent_format [c] args = [c]"
| "percent_format (c # d # cs) args =
     (if c = CHR ''%'' \<and> d = CHR ''s''
      then (case args of
              [] \<Rightarrow> c # d # percent_format cs []
            | a # as \<Rightarrow> a @ percent_format cs as)
      else c # percent_format (d # cs) args)"

text \<open>The number of \<^verbatim>\<open>%s\<close> directives of a format string.\<close>

fun directives :: "string \<Rightarrow> nat" where
  "directives [] = 0"
| "directives [c] = 0"
| "directives (c # d # cs) =
     (if c = CHR ''%'' \<and> d = CHR ''s'' then Suc (directives cs) else directives (d # cs))"

text \<open>Python's truth value of an optional string: \<^verbatim>\<open>None\<close> and the empty string are
  false.\<close>

fun truthy :: "string option \<Rightarrow> bool" where
  "truthy None = False"
| "truthy (Some s) = (s \<noteq> [])"

subsection \<open>Exceptions, configuration and the outside world\<close>

text \<open>How a call ends when it does not return a value: the exceptions that can leave
  the module, and \<open>Blocked\<close> for a call that never comes back. \<^verbatim>\<open>sys.exit(n)\<close> raises
  \<^verbatim>\<open>SystemExit(n)\<close>, which ends the process with status \<open>n\<close>. In Python 3
  \<^verbatim>\<open>IOError\<close> is another name of \<^verbatim>\<open>OSError\<close>: it is what a failing \<^verbatim>\<open>open\<close> and a
  failing spawn raise. \<^verbatim>\<open>readlines\<close> on a pipe opened in text mode raises
  \<^verbatim>\<open>UnicodeDecodeError\<close> when the bytes do not decode. \<^verbatim>\<open>time.sleep\<close> raises
  \<^verbatim>\<open>ValueError\<close> on a negative duration and \<^verbatim>\<open>OverflowError\<close> on one beyond the range
  of the C clock. \<^verbatim>\<open>wait\<close> never returns for a child process that never exits, for
  instance one that blocks on a full pipe nobody reads.\<close>

datatype stop =
    SystemExit int | ConfigurationError | OSError | ValueError | UnicodeDecodeError
  | OverflowError | Blocked

text \<open>Modelled from the spec: the configuration object \<^verbatim>\<open>airflow.configuration.conf\<close>
  is not part of the sources. The spec treats configuration as an externally supplied,
  read-only key-value source under the \<^verbatim>\<open>kerberos\<close> namespace, and a required value
  that is absent as a \<^verbatim>\<open>ConfigurationError\<close>. Each key is an optional value of the type
  its accessor returns.\<close>

record kerberos_conf =
  kerberos_principal :: "string option"
  kerberos_kinit_path :: "string option"
  kerberos_ccache :: "string option"
  kerberos_reinit_frequency :: "int option"
  kerberos_forwardable :: "bool option"
  kerberos_include_ip :: "bool option"

definition get_mandatory_value :: "string option \<Rightarrow> stop + string" where
  "get_mandatory_value v = (case v of None \<Rightarrow> Inl ConfigurationError | Some x \<Rightarrow> Inr x)"

definition conf_get :: "string option \<Rightarrow> stop + string" where
  "conf_get v = (case v of None \<Rightarrow> Inl ConfigurationError | Some x \<Rightarrow> Inr x)"

definition getint :: "int option \<Rightarrow> stop + int" where
  "getint v = (case v of None \<Rightarrow> Inl ConfigurationError | Some x \<Rightarrow> Inr x)"

definition getboolean :: "bool option \<Rightarrow> stop + bool" where
  "getboolean v = (case v of None \<Rightarrow> Inl ConfigurationError | Some x \<Rightarrow> Inr x)"

text \<open>What the world answers to a call that starts a child process: the call fails
  with \<^verbatim>\<open>OSError\<close> (the executable cannot be started), it never comes back (the child
  never exits), or the child exits and the call has a value.\<close>

datatype 'a answer = Fails | Hangs | Answers 'a

text \<open>A pipe opened in text mode, as \<^verbatim>\<open>readlines\<close> finds it: the decoded lines, or
  \<open>None\<close> when the bytes the child wrote do not decode.\<close>

type_synonym pipe = "string list option"

text \<open>What the module does to the outside world, in the order it does it. An event of
  a child process or of a file carries what the world answered: for
  \<^verbatim>\<open>subprocess.Popen\<close> followed by \<^verbatim>\<open>wait\<close>, the exit status and the two captured
  pipes; for \<^verbatim>\<open>subprocess.call\<close>, the exit status; for the file, its bytes (\<open>None\<close>
  when the call raised \<^verbatim>\<open>OSError\<close>). A log record keeps its level, its format string
  and its arguments, as \<^verbatim>\<open>logging\<close> does.\<close>

datatype level = INFO | WARNING | ERROR

datatype event =
    is_Log: Log level string "string list"
  | is_Popen: Popen "string list" "(int \<times> pipe \<times> pipe) answer"
  | is_Call: Call "string list" "int answer"
  | is_Open_rb: Open_rb string "bytes option"
  | is_Sleep: Sleep rat

fun getMessage :: "event \<Rightarrow> string" where
  "getMessage (Log l msg args) = percent_format msg args"
| "getMessage e = []"

text \<open>The environment of the process: the configuration, the host name
  (\<^verbatim>\<open>airflow.utils.net.get_hostname\<close>, not part of the sources, taken as given), and
  one oracle for each call that asks the world something. An oracle sees everything that
  has happened so far, so the same command can succeed in one cycle and fail in the
  next.\<close>

record env =
  conf :: kerberos_conf
  get_hostname :: string
  popen_answer :: "event list \<Rightarrow> string list \<Rightarrow> (int \<times> pipe \<times> pipe) answer"
  call_answer :: "event list \<Rightarrow> string list \<Rightarrow> int answer"
  read_answer :: "event list \<Rightarrow> string \<Rightarrow> bytes option"

text \<open>The state of the process: the module's global \<^verbatim>\<open>NEED_KRB181_WORKAROUND\<close>
  (\<^verbatim>\<open>bool | None\<close>) and the trace of events.\<close>

record state =
  NEED_KRB181_WORKAROUND :: "bool option"
  trace :: "event list"

definition init_state :: state where
  "init_state = \<lparr>NEED_KRB181_WORKAROUND = None, trace = []\<rparr>"

text \<open>The events a computation has added, between the state before and the state
  after.\<close>

definition new_events :: "state \<Rightarrow> state \<Rightarrow> event list" where
  "new_events s s' = drop (length (trace s)) (trace s')"

subsection \<open>Sequencing with exceptions\<close>

type_synonym 'a io = "state \<Rightarrow> state \<times> (stop + 'a)"

definition return :: "'a \<Rightarrow> 'a io" where
  "return x s = (s, Inr x)"

definition raise :: "stop \<Rightarrow> 'a io" where
  "raise e s = (s, Inl e)"

definition lift :: "stop + 'a \<Rightarrow> 'a io" where
  "lift v s = (s, v)"

definition bind :: "'a io \<Rightarrow> ('a \<Rightarrow> 'b io) \<Rightarrow> 'b io" where
  "bind m f s = (case m s of (s', Inl e) \<Rightarrow> (s', Inl e) | (s', Inr x) \<Rightarrow> f x s')"

definition emit :: "event \<Rightarrow> unit io" where
  "emit e s = (s\<lparr>trace := trace s @ [e]\<rparr>, Inr ())"

definition log_info :: "string \<Rightarrow> string list \<Rightarrow> unit io" where
  "log_info msg args = emit (Log INFO msg args)"

definition log_warning :: "string \<Rightarrow> string list \<Rightarrow> unit io" where
  "log_warning msg args = emit (Log WARNING msg args)"

definition log_error :: "string \<Rightarrow> string list \<Rightarrow> unit io" where
  "log_error msg args = emit (Log ERROR msg args)"

definition sys_exit :: "int \<Rightarrow> 'a io" where
  "sys_exit n = raise (SystemExit n)"

text \<open>\<^verbatim>\<open>time.sleep\<close> first converts the seconds to nanoseconds in a signed 64-bit
  integer, which fails beyond 9223372036 seconds either way, and then refuses a negative
  duration.\<close>

definition time_sleep :: "rat \<Rightarrow> unit io" where
  "time_sleep d =
     (if d < - 9223372036 \<or> 9223372036 < d then raise OverflowError
      else if d < 0 then raise ValueError
      else emit (Sleep d))"

text \<open>\<^verbatim>\<open>subprocess.Popen(...)\<close> with both pipes captured in text mode, followed by
  \<^verbatim>\<open>subp.wait()\<close>: the value is the exit status and the two pipes, not yet read.\<close>

definition subprocess_Popen :: "env \<Rightarrow> string list \<Rightarrow> (int \<times> pipe \<times> pipe) io" where
  "subprocess_Popen e cmdv s =
     (let r = popen_answer e (trace s) cmdv;
          s' = s\<lparr>trace := trace s @ [Popen cmdv r]\<rparr>
      in case r of
           Fails \<Rightarrow> (s', Inl OSError)
         | Hangs \<Rightarrow> (s', Inl Blocked)
         | Answers x \<Rightarrow> (s', Inr x))"

text \<open>\<^verbatim>\<open>pipe.readlines()\<close>.\<close>

definition readlines :: "pipe \<Rightarrow> string list io" where
  "readlines p = (case p of None \<Rightarrow> raise UnicodeDecodeError | Some ls \<Rightarrow> return ls)"

definition subprocess_call :: "env \<Rightarrow> string list \<Rightarrow> int io" where
  "subprocess_call e cmdv s =
     (let r = call_answer e (trace s) cmdv;
          s' = s\<lparr>trace := trace s @ [Call cmdv r]\<rparr>
      in case r of
           Fails \<Rightarrow> (s', Inl OSError)
         | Hangs \<Rightarrow> (s', Inl Blocked)
         | Answers x \<Rightarrow> (s', Inr x))"

definition open_rb_read :: "env \<Rightarrow> string \<Rightarrow> bytes io" where
  "open_rb_read e path s =
     (let r = read_answer e (trace s) path;
          s' = s\<lparr>trace := trace s @ [Open_rb path r]\<rparr>
      in case r of None \<Rightarrow> (s', Inl OSError) | Some x \<Rightarrow> (s', Inr x))"

subsection \<open>The module\<close>

datatype KerberosMode = STANDARD | ONE_TIME

fun mode_value :: "KerberosMode \<Rightarrow> string" where
  "mode_value STANDARD = ''standard''"
| "mode_value ONE_TIME = ''one-time''"

text \<open>\<^verbatim>\<open>get_kerberos_principal\<close>: \<^verbatim>\<open>principal or conf.get_mandatory_value(...).replace(...)\<close>.
  The right operand of \<^verbatim>\<open>or\<close> is evaluated only when the left one is false.\<close>

definition get_kerberos_principal :: "env \<Rightarrow> string option \<Rightarrow> stop + string" where
  "get_kerberos_principal e princ =
     (case princ of
        Some p \<Rightarrow>
          if truthy princ then Inr p
          else (case get_mandatory_value (kerberos_principal (conf e)) of
                  Inl x \<Rightarrow> Inl x
                | Inr template \<Rightarrow> Inr (replace ''_HOST'' (get_hostname e) template))
      | None \<Rightarrow>
          (case get_mandatory_value (kerberos_principal (conf e)) of
             Inl x \<Rightarrow> Inl x
           | Inr template \<Rightarrow> Inr (replace ''_HOST'' (get_hostname e) template)))"

text \<open>\<^verbatim>\<open>detect_conf_var\<close>: whether the ticket cache holds the marker.\<close>

definition detect_conf_var :: "env \<Rightarrow> bool io" where
  "detect_conf_var e =
     bind (lift (get_mandatory_value (kerberos_ccache (conf e)))) (\<lambda>ticket_cache.
     bind (open_rb_read e ticket_cache) (\<lambda>data.
     return (bytes_in ''X-CACHECONF:'' data)))"

definition krb181_message :: string where
  "krb181_message =
     ''Couldn't renew kerberos ticket in order to work around Kerberos 1.8.1 issue. Please check that ''
     @ ''the ticket for '%s' is still renewable:'' @ [CHR 0x0A] @ ''  $ kinit -f -c %s'' @ [CHR 0x0A]
     @ ''If the 'renew until' date is the ''
     @ ''same as the 'valid starting' date, the ticket cannot be renewed. Please check your KDC ''
     @ ''configuration, and the ticket renewal policy (maxrenewlife) for the '%s' and `krbtgt' ''
     @ ''principals.''"

text \<open>\<^verbatim>\<open>perform_krb181_workaround\<close>: \<^verbatim>\<open>kinit -c ccache -R\<close> on the existing cache.\<close>

definition perform_krb181_workaround :: "env \<Rightarrow> string \<Rightarrow> int io" where
  "perform_krb181_workaround e princ =
     bind (lift (get_mandatory_value (kerberos_kinit_path (conf e)))) (\<lambda>kinit_path.
     bind (lift (get_mandatory_value (kerberos_ccache (conf e)))) (\<lambda>cache.
     let cmdv = [kinit_path, ''-c'', cache, ''-R''] in
     bind (log_info ''Renewing kerberos ticket to work around kerberos 1.8.1: %s''
             [join '' '' cmdv]) (\<lambda>_.
     bind (subprocess_call e cmdv) (\<lambda>ret.
     if ret \<noteq> 0 then
       bind (lift (if princ \<noteq> [] then Inr princ
                   else conf_get (kerberos_principal (conf e)))) (\<lambda>p.
       let shown = p @ ''/'' @ get_hostname e in
       bind (lift (conf_get (kerberos_ccache (conf e)))) (\<lambda>ccache.
       bind (log_error krb181_message [shown, ccache, shown]) (\<lambda>_.
       return ret)))
     else return ret))))"

definition reinit_message :: string where
  "reinit_message =
     ''Couldn't reinit from keytab! `kinit` exited with %s.'' @ [CHR 0x0A] @ ''%s''
     @ [CHR 0x0A] @ ''%s''"

text \<open>\<^verbatim>\<open>renew_from_kt\<close>. The parameter \<open>exit_on_fail\<close> has the default \<open>True\<close> in the
  source; a caller that leaves it out passes \<open>True\<close> here. The arguments of
  \<^verbatim>\<open>log.error\<close> are evaluated from the left, so the two pipes are read, and may fail to
  decode, before the record is logged and before \<^verbatim>\<open>sys.exit\<close> or \<^verbatim>\<open>return\<close>; they are
  read in this branch only.\<close>

definition renew_from_kt :: "env \<Rightarrow> string option \<Rightarrow> string \<Rightarrow> bool \<Rightarrow> int io" where
  "renew_from_kt e princ keytab exit_on_fail =
     bind (lift (getint (kerberos_reinit_frequency (conf e)))) (\<lambda>freq.
     let renewal_lifetime = str_int freq @ ''m'' in
     bind (lift (get_kerberos_principal e princ)) (\<lambda>cmd_principal.
     bind (lift (getboolean (kerberos_forwardable (conf e)))) (\<lambda>fw.
     let forwardable = (if fw then ''-f'' else ''-F'') in
     bind (lift (getboolean (kerberos_include_ip (conf e)))) (\<lambda>ip.
     let include_ip = (if ip then ''-a'' else ''-A'') in
     bind (lift (get_mandatory_value (kerberos_kinit_path (conf e)))) (\<lambda>kinit_path.
     bind (lift (get_mandatory_value (kerberos_ccache (conf e)))) (\<lambda>ccache.
     let cmdv = [kinit_path, forwardable, include_ip, ''-r'', renewal_lifetime, ''-k'', ''-t'',
                 keytab, ''-c'', ccache, cmd_principal] in
     bind (log_info ''Re-initialising kerberos from keytab: %s''
             [join '' '' (map shlex_quote cmdv)]) (\<lambda>_.
     bind (subprocess_Popen e cmdv) (\<lambda>(returncode, stdout, stderr).
     if returncode \<noteq> 0 then
       bind (readlines stdout) (\<lambda>out.
       bind (readlines stderr) (\<lambda>err.
       bind (log_error reinit_message
               [str_int returncode, join [CHR 0x0A] out, join [CHR 0x0A] err]) (\<lambda>_.
       if exit_on_fail then sys_exit returncode else return returncode)))
     else
       bind (\<lambda>s. if NEED_KRB181_WORKAROUND s = None
                  then bind (detect_conf_var e)
                         (\<lambda>b s'. (s'\<lparr>NEED_KRB181_WORKAROUND := Some b\<rparr>, Inr ())) s
                  else (s, Inr ())) (\<lambda>_.
       bind (\<lambda>s. (s, Inr (NEED_KRB181_WORKAROUND s))) (\<lambda>need.
       if need = Some True then
         bind (time_sleep (3 / 2)) (\<lambda>_.
         bind (perform_krb181_workaround e cmd_principal) (\<lambda>ret.
         if exit_on_fail \<and> ret \<noteq> 0 then sys_exit ret else return ret))
       else return 0))))))))))"

text \<open>\<^verbatim>\<open>run\<close>. The keytab is a \<^verbatim>\<open>str\<close>; \<^verbatim>\<open>not keytab\<close> holds for the empty one.
  The loop of the standard mode has no exit of its own; \<open>fuel\<close> bounds
  the number of cycles the model follows, and the answer \<open>None\<close> says that the loop
  was still going round when the fuel ran out. \<open>Some\<close> carries how \<^verbatim>\<open>run\<close> ended:
  with an exception, blocked in a child process for ever, or by returning.\<close>

fun standard_loop :: "env \<Rightarrow> string option \<Rightarrow> string \<Rightarrow> nat \<Rightarrow> state \<Rightarrow> state \<times> (stop + unit) option" where
  "standard_loop e princ keytab 0 s = (s, None)"
| "standard_loop e princ keytab (Suc fuel) s =
     (case renew_from_kt e princ keytab True s of
        (s1, Inl x) \<Rightarrow> (s1, Some (Inl x))
      | (s1, Inr _) \<Rightarrow>
          (case bind (lift (getint (kerberos_reinit_frequency (conf e))))
                  (\<lambda>freq. time_sleep (of_int freq)) s1 of
             (s2, Inl x) \<Rightarrow> (s2, Some (Inl x))
           | (s2, Inr _) \<Rightarrow> standard_loop e princ keytab fuel s2))"

definition run :: "env \<Rightarrow> nat \<Rightarrow> string option \<Rightarrow> string \<Rightarrow> KerberosMode \<Rightarrow> state \<Rightarrow> state \<times> (stop + unit) option" where
  "run e fuel princ keytab mode s =
     (if keytab = [] then
        (case bind (log_warning ''Keytab renewer not starting, no keytab configured'' [])
                (\<lambda>_. sys_exit 0) s of
           (s', r) \<Rightarrow> (s', Some r))
      else
        (case log_info ''Using airflow kerberos with mode: %s'' [mode_value mode] s of
           (s1, _) \<Rightarrow>
             if mode = STANDARD then standard_loop e princ keytab fuel s1
             else if mode = ONE_TIME then
               (case renew_from_kt e princ keytab True s1 of
                  (s2, Inl x) \<Rightarrow> (s2, Some (Inl x))
                | (s2, Inr _) \<Rightarrow> (s2, Some (Inr ())))
             else (s1, Some (Inr ()))))"

subsection \<open>Reading a trace\<close>

text \<open>The events of a trace that reach the outside world: everything but the log
  records.\<close>

definition effects :: "event list \<Rightarrow> event list" where
  "effects es = filter (\<lambda>ev. \<not> is_Log ev) es"

text \<open>The commands the trace spawned with \<^verbatim>\<open>subprocess.Popen\<close>, in order.\<close>

fun popen_commands :: "event list \<Rightarrow> string list list" where
  "popen_commands [] = []"
| "popen_commands (Popen c a # es) = c # popen_commands es"
| "popen_commands (ev # es) = popen_commands es"

text \<open>A \<^verbatim>\<open>kinit\<close> child process that exited with status 0.\<close>

fun kinit_ok :: "event \<Rightarrow> bool" where
  "kinit_ok (Popen c (Answers (rc, out, err))) = (rc = 0)"
| "kinit_ok ev = False"

text \<open>The log records of level \<^verbatim>\<open>ERROR\<close>.\<close>

fun is_error :: "event \<Rightarrow> bool" where
  "is_error (Log l msg args) = (l = ERROR)"
| "is_error ev = False"

text \<open>Every answer recorded in the events \<open>es\<close> is the one the world gave at that
  moment, \<open>past\<close> being the trace before them.\<close>

fun consistent :: "env \<Rightarrow> event list \<Rightarrow> event list \<Rightarrow> bool" where
  "consistent e past [] = True"
| "consistent e past (Popen c a # es) =
     (a = popen_answer e past c \<and> consistent e (past @ [Popen c a]) es)"
| "consistent e past (Call c a # es) =
     (a = call_answer e past c \<and> consistent e (past @ [Call c a]) es)"
| "consistent e past (Open_rb f a # es) =
     (a = read_answer e past f \<and> consistent e (past @ [Open_rb f a]) es)"
| "consistent e past (ev # es) = consistent e (past @ [ev]) es"





subsection \<open>Names for the parts of \<^verbatim>\<open>renew_from_kt\<close>\<close>

text \<open>The lemmas below follow \<^verbatim>\<open>renew_from_kt\<close> through its parts. These definitions
  name them: the configuration values it reads, the command it builds, the statements
  after the \<^verbatim>\<open>with\<close> block, and the workaround branch among them.\<close>

definition conf_values :: "env \<Rightarrow> string option \<Rightarrow> int \<Rightarrow> string \<Rightarrow> bool \<Rightarrow> bool \<Rightarrow> string \<Rightarrow> string \<Rightarrow> bool" where
  "conf_values e princ freq p fw ip kinit cc =
     (kerberos_reinit_frequency (conf e) = Some freq \<and> get_kerberos_principal e princ = Inr p
      \<and> kerberos_forwardable (conf e) = Some fw \<and> kerberos_include_ip (conf e) = Some ip
      \<and> kerberos_kinit_path (conf e) = Some kinit \<and> kerberos_ccache (conf e) = Some cc)"

definition kinit_cmdv :: "string \<Rightarrow> bool \<Rightarrow> bool \<Rightarrow> int \<Rightarrow> string \<Rightarrow> string \<Rightarrow> string \<Rightarrow> string list" where
  "kinit_cmdv kinit fw ip freq keytab cc p =
     [kinit, if fw then ''-f'' else ''-F'', if ip then ''-a'' else ''-A'', ''-r'',
      str_int freq @ ''m'', ''-k'', ''-t'', keytab, ''-c'', cc, p]"

definition renew_workaround :: "env \<Rightarrow> string \<Rightarrow> bool \<Rightarrow> int io" where
  "renew_workaround e cmd_principal exit_on_fail =
         bind (time_sleep (3 / 2)) (\<lambda>_.
         bind (perform_krb181_workaround e cmd_principal) (\<lambda>ret.
         if exit_on_fail \<and> ret \<noteq> 0 then sys_exit ret else return ret))"

definition krb181_step :: "env \<Rightarrow> string \<Rightarrow> bool \<Rightarrow> int io" where
  "krb181_step e cmd_principal exit_on_fail =
       bind (\<lambda>s. if NEED_KRB181_WORKAROUND s = None
                  then bind (detect_conf_var e)
                         (\<lambda>b s'. (s'\<lparr>NEED_KRB181_WORKAROUND := Some b\<rparr>, Inr ())) s
                  else (s, Inr ())) (\<lambda>_.
       bind (\<lambda>s. (s, Inr (NEED_KRB181_WORKAROUND s))) (\<lambda>need.
       if need = Some True then renew_workaround e cmd_principal exit_on_fail
       else return 0))"

text \<open>What \<^verbatim>\<open>renew_from_kt\<close> makes of the answer to the workaround's
  \<^verbatim>\<open>subprocess.call\<close>.\<close>

definition workaround_outcome :: "bool \<Rightarrow> int answer \<Rightarrow> stop + int" where
  "workaround_outcome exit_on_fail cans =
     (case cans of
        Fails \<Rightarrow> Inl OSError
      | Hangs \<Rightarrow> Inl Blocked
      | Answers ret \<Rightarrow> if exit_on_fail \<and> ret \<noteq> 0 then Inl (SystemExit ret) else Inr ret)"

subsection \<open>An example deployment\<close>

text \<open>A configuration with the principal template \<^verbatim>\<open>airflow/_HOST@EXAMPLE.COM\<close> on the
  host \<^verbatim>\<open>worker1\<close>. The world of \<open>example_env rc ret file\<close> answers every
  \<^verbatim>\<open>kinit\<close> from the keytab with the exit status \<open>rc\<close> and pipes that decode, every
  workaround renewal with \<open>ret\<close>, and every read of the ticket cache with \<open>file\<close>.\<close>

definition example_conf :: "bool \<Rightarrow> bool \<Rightarrow> kerberos_conf" where
  "example_conf fw ip =
     \<lparr>kerberos_principal = Some ''airflow/_HOST@EXAMPLE.COM'',
      kerberos_kinit_path = Some ''kinit'',
      kerberos_ccache = Some ''/tmp/airflow_krb5_ccache'',
      kerberos_reinit_frequency = Some 3600,
      kerberos_forwardable = Some fw,
      kerberos_include_ip = Some ip\<rparr>"

definition example_env :: "int \<Rightarrow> int \<Rightarrow> bytes option \<Rightarrow> env" where
  "example_env rc ret file =
     \<lparr>conf = example_conf True True,
      get_hostname = ''worker1'',
      popen_answer = (\<lambda>tr cmdv. Answers (rc, Some [], Some [''kinit: status''])),
      call_answer = (\<lambda>tr cmdv. Answers ret),
      read_answer = (\<lambda>tr path. file)\<rparr>"


section \<open>Lemmas\<close>

subsection \<open>Strings\<close>

lemma bytes_in_iff: "bytes_in n h \<longleftrightarrow> (\<exists>pre post. h = pre @ n @ post)"
  by (induction h) (auto simp: sublist_Cons_right sublist_def[symmetric])

text \<open>The token \<^verbatim>\<open>_HOST\<close> cannot overlap itself: an occurrence that starts inside a
  piece and runs into what follows the piece lies within the piece.\<close>

lemma no_overlap:
  assumes "prefix ''_HOST'' (p @ r)" "r = [] \<or> prefix ''_HOST'' r" "p \<noteq> []"
  shows "prefix ''_HOST'' p"
proof -
  have r: "prefix (c # cs) r \<Longrightarrow> c = CHR ''_''" for c cs
    using assms(2) by (cases r) auto
  obtain c1 p1 where p: "p = c1 # p1" using assms(3) by (cases p) auto
  show ?thesis
  proof (cases p1)
    case Nil
    with assms(1) p show ?thesis by (auto dest: r)
  next
    case c2: (Cons c2 p2)
    show ?thesis
    proof (cases p2)
      case Nil
      with assms(1) p c2 show ?thesis by (auto dest: r)
    next
      case c3: (Cons c3 p3)
      show ?thesis
      proof (cases p3)
        case Nil
        with assms(1) p c2 c3 show ?thesis by (auto dest: r)
      next
        case c4: (Cons c4 p4)
        show ?thesis
        proof (cases p4)
          case Nil
          with assms(1) p c2 c3 c4 show ?thesis by (auto dest: r)
        next
          case (Cons c5 p5)
          with assms(1) p c2 c3 c4 show ?thesis by auto
        qed
      qed
    qed
  qed
qed

lemma replace_piece:
  "\<not> sublist ''_HOST'' p \<Longrightarrow> r = [] \<or> prefix ''_HOST'' r \<Longrightarrow>
   replace ''_HOST'' h (p @ r) = p @ replace ''_HOST'' h r"
proof (induction p)
  case Nil
  then show ?case by simp
next
  case (Cons c p)
  from Cons.prems(1) have np: "\<not> prefix ''_HOST'' (c # p)" and ns: "\<not> sublist ''_HOST'' p"
    by (auto simp: sublist_Cons_right)
  have "\<not> prefix ''_HOST'' ((c # p) @ r)"
    using no_overlap[of "c # p" r] np Cons.prems(2) by blast
  then have "replace ''_HOST'' h ((c # p) @ r) = c # replace ''_HOST'' h (p @ r)"
    by auto
  with Cons.IH[OF ns Cons.prems(2)] show ?case by simp
qed

lemma replace_join:
  "\<forall>p\<in>set pieces. \<not> sublist ''_HOST'' p \<Longrightarrow>
   replace ''_HOST'' h (join ''_HOST'' pieces) = join h pieces"
proof (induction "''_HOST''" pieces rule: join.induct)
  case 1
  then show ?case by simp
next
  case (2 x)
  then show ?case using replace_piece[of x "[]" h] by simp
next
  case (3 x y ys)
  have "replace ''_HOST'' h (x @ ''_HOST'' @ join ''_HOST'' (y # ys))
        = x @ replace ''_HOST'' h (''_HOST'' @ join ''_HOST'' (y # ys))"
    using 3 replace_piece[of x "''_HOST'' @ join ''_HOST'' (y # ys)" h] by simp
  also have "replace ''_HOST'' h (''_HOST'' @ join ''_HOST'' (y # ys))
        = h @ replace ''_HOST'' h (join ''_HOST'' (y # ys))"
    by simp
  finally show ?case using 3 by simp
qed

lemma join_Cons: "join sep (q # qs) = q @ (if qs = [] then [] else sep @ join sep qs)"
  by (cases qs) simp_all

text \<open>Every template is pieces free of \<^verbatim>\<open>_HOST\<close> joined by \<^verbatim>\<open>_HOST\<close>.\<close>

lemma pieces_exist:
  "\<exists>pieces. pieces \<noteq> [] \<and> t = join ''_HOST'' pieces \<and> (\<forall>x\<in>set pieces. \<not> sublist ''_HOST'' x)"
proof (induction t rule: length_induct)
  case (1 t)
  show ?case
  proof (cases t)
    case Nil
    then show ?thesis by (intro exI[of _ "[[]]"]) simp
  next
    case (Cons c cs)
    show ?thesis
    proof (cases "prefix ''_HOST'' t")
      case True
      then obtain rest where rest: "t = ''_HOST'' @ rest" by (auto simp: prefix_def)
      then have "length rest < length t" by simp
      with 1 obtain pieces where p: "pieces \<noteq> []" "rest = join ''_HOST'' pieces"
        "\<forall>x\<in>set pieces. \<not> sublist ''_HOST'' x" by blast
      from p rest show ?thesis
        by (intro exI[of _ "[] # pieces"]) (simp add: join_Cons)
    next
      case False
      from Cons have "length cs < length t" by simp
      with 1 obtain pieces where p: "pieces \<noteq> []" "cs = join ''_HOST'' pieces"
        "\<forall>x\<in>set pieces. \<not> sublist ''_HOST'' x" by blast
      then obtain q qs where qs: "pieces = q # qs" by (cases pieces) auto
      have "\<not> prefix ''_HOST'' (c # q)"
      proof
        assume "prefix ''_HOST'' (c # q)"
        then have "prefix ''_HOST'' ((c # q) @ (if qs = [] then [] else ''_HOST'' @ join ''_HOST'' qs))"
          by (rule prefix_prefix)
        with False Cons p(2) qs show False by (simp add: join_Cons)
      qed
      with p(3) qs have "\<not> sublist ''_HOST'' (c # q)" by (simp add: sublist_Cons_right)
      with p qs Cons show ?thesis
        by (intro exI[of _ "(c # q) # qs"]) (simp add: join_Cons)
    qed
  qed
qed

text \<open>Every argument of a log record shows in its message when the format has a
  directive for it.\<close>

lemma percent_format_shows:
  "length args \<le> directives msg \<Longrightarrow> a \<in> set args \<Longrightarrow> sublist a (percent_format msg args)"
proof (induction msg args rule: percent_format.induct)
  case (1 args)
  then show ?case by simp
next
  case (2 c args)
  then show ?case by simp
next
  case (3 c d cs args)
  show ?case
  proof (cases "c = CHR ''%'' \<and> d = CHR ''s''")
    case True
    with 3 obtain b bs where args: "args = b # bs" by (cases args) auto
    show ?thesis
    proof (cases "a = b")
      case True
      with \<open>c = CHR ''%'' \<and> d = CHR ''s''\<close> args show ?thesis by simp
    next
      case False
      with 3 True args have "sublist a (percent_format cs bs)" by simp
      then show ?thesis using True args by (simp add: sublist_append)
    qed
  next
    case False
    with 3 have "sublist a (percent_format (d # cs) args)" by auto
    with False show ?thesis by (auto simp: sublist_Cons_right)
  qed
qed

subsection \<open>Traces\<close>

lemma new_events_append: "trace s' = trace s @ es \<Longrightarrow> new_events s s' = es"
  by (simp add: new_events_def)

lemma new_events_same: "new_events s s = []"
  by (simp add: new_events_def)

lemma effects_simps:
  "effects [] = []"
  "effects (Log l m a # es) = effects es"
  "effects (Popen c pa # es) = Popen c pa # effects es"
  "effects (Call c ca # es) = Call c ca # effects es"
  "effects (Open_rb f ra # es) = Open_rb f ra # effects es"
  "effects (Sleep d # es) = Sleep d # effects es"
  "effects (xs @ ys) = effects xs @ effects ys"
  by (simp_all add: effects_def)

lemma in_effects: "\<not> is_Log ev \<Longrightarrow> ev \<in> set es \<longleftrightarrow> ev \<in> set (effects es)"
  by (simp add: effects_def)

lemma filter_effects:
  "filter is_Popen es = filter is_Popen (effects es)"
  "filter is_Call es = filter is_Call (effects es)"
  "filter is_Open_rb es = filter is_Open_rb (effects es)"
  "filter is_Sleep es = filter is_Sleep (effects es)"
  "filter kinit_ok es = filter kinit_ok (effects es)"
  unfolding effects_def filter_filter
  by (rule filter_cong; auto simp: event.disc_eq_case split: event.splits)+

lemma list_ex_effects: "list_ex kinit_ok es = list_ex kinit_ok (effects es)"
  by (induction es) (auto simp: effects_def elim: kinit_ok.elims)

lemma popen_commands_effects: "popen_commands es = popen_commands (effects es)"
  by (induction es rule: popen_commands.induct) (simp_all add: effects_simps)






lemma consistent_Popen:
  "consistent e past es \<Longrightarrow> Popen c a \<in> set es \<Longrightarrow> \<exists>tr. a = popen_answer e tr c"
  by (induction e past es rule: consistent.induct) auto

lemma consistent_Call:
  "consistent e past es \<Longrightarrow> Call c a \<in> set es \<Longrightarrow> \<exists>tr. a = call_answer e tr c"
  by (induction e past es rule: consistent.induct) auto

lemma consistent_Open_rb:
  "consistent e past es \<Longrightarrow> Open_rb f a \<in> set es \<Longrightarrow> \<exists>tr. a = read_answer e tr f"
  by (induction e past es rule: consistent.induct) auto

subsection \<open>Sequencing\<close>

lemma bind_lift_Inl: "bind (lift (Inl x)) f s = (s, Inl x)"
  by (simp add: bind_def lift_def)

lemma bind_lift_Inr: "bind (lift (Inr v)) f s = f v s"
  by (simp add: bind_def lift_def)

lemma bind_lift: "bind (lift v) f s = (case v of Inl x \<Rightarrow> (s, Inl x) | Inr a \<Rightarrow> f a s)"
  by (simp add: bind_def lift_def split: sum.splits)

lemma bind_emit: "bind (emit ev) f s = f () (s\<lparr>trace := trace s @ [ev]\<rparr>)"
  by (simp add: bind_def emit_def)

lemma bind_call:
  "bind (subprocess_call e cmdv) f s =
     (let cans = call_answer e (trace s) cmdv; s' = s\<lparr>trace := trace s @ [Call cmdv cans]\<rparr>
      in case cans of Fails \<Rightarrow> (s', Inl OSError) | Hangs \<Rightarrow> (s', Inl Blocked)
         | Answers ret \<Rightarrow> f ret s')"
  by (simp add: bind_def subprocess_call_def Let_def split: answer.splits)

lemma bind_Popen:
  "bind (subprocess_Popen e cmdv) f s =
     (let ans = popen_answer e (trace s) cmdv; s' = s\<lparr>trace := trace s @ [Popen cmdv ans]\<rparr>
      in case ans of Fails \<Rightarrow> (s', Inl OSError) | Hangs \<Rightarrow> (s', Inl Blocked)
         | Answers x \<Rightarrow> f x s')"
  by (simp add: bind_def subprocess_Popen_def Let_def split: answer.splits)

lemma bind_readlines:
  "bind (readlines p) f s =
     (case p of None \<Rightarrow> (s, Inl UnicodeDecodeError) | Some ls \<Rightarrow> f ls s)"
  by (simp add: bind_def readlines_def raise_def return_def split: option.splits)

lemma bind_open:
  "bind (open_rb_read e path) f s =
     (let ans = read_answer e (trace s) path; s' = s\<lparr>trace := trace s @ [Open_rb path ans]\<rparr>
      in case ans of None \<Rightarrow> (s', Inl OSError) | Some x \<Rightarrow> f x s')"
  by (simp add: bind_def open_rb_read_def Let_def split: option.splits)

lemma conf_reads:
  "getint None = Inl ConfigurationError" "getint (Some n) = Inr n"
  "getboolean None = Inl ConfigurationError" "getboolean (Some b) = Inr b"
  "get_mandatory_value None = Inl ConfigurationError" "get_mandatory_value (Some v) = Inr v"
  "conf_get None = Inl ConfigurationError" "conf_get (Some v) = Inr v"
  by (simp_all add: getint_def getboolean_def get_mandatory_value_def conf_get_def)

lemma get_kerberos_principal_Inl:
  "get_kerberos_principal e princ = Inl a \<Longrightarrow> a = ConfigurationError"
  by (auto simp: get_kerberos_principal_def get_mandatory_value_def
        split: option.splits if_splits sum.splits)

lemma get_kerberos_principal_empty:
  "get_kerberos_principal e princ = Inr [] \<Longrightarrow> kerberos_principal (conf e) \<noteq> None"
  by (auto simp: get_kerberos_principal_def get_mandatory_value_def
        split: option.splits if_splits sum.splits)

subsection \<open>The workaround and the detection, step by step\<close>

lemma perform_krb181_workaround_complete:
  assumes "kerberos_kinit_path (conf e) = Some kinit" and "kerberos_ccache (conf e) = Some cc"
  shows "perform_krb181_workaround e p s =
     (let cmdv = [kinit, ''-c'', cc, ''-R''];
          s1 = s\<lparr>trace := trace s @ [Log INFO ''Renewing kerberos ticket to work around kerberos 1.8.1: %s'' [join '' '' cmdv]]\<rparr>;
          cans = call_answer e (trace s1) cmdv;
          s2 = s1\<lparr>trace := trace s1 @ [Call cmdv cans]\<rparr>
      in case cans of
           Fails \<Rightarrow> (s2, Inl OSError)
         | Hangs \<Rightarrow> (s2, Inl Blocked)
         | Answers ret \<Rightarrow>
             if ret = 0 then (s2, Inr ret)
             else (case (if p \<noteq> [] then Inr p else conf_get (kerberos_principal (conf e))) of
                     Inl x \<Rightarrow> (s2, Inl x)
                   | Inr q \<Rightarrow> (s2\<lparr>trace := trace s2 @ [Log ERROR krb181_message
                         [q @ ''/'' @ get_hostname e, cc, q @ ''/'' @ get_hostname e]]\<rparr>, Inr ret)))"
  unfolding perform_krb181_workaround_def
  apply (simp only: assms bind_lift_Inl bind_lift_Inr conf_reads)
  by (simp add: Let_def log_info_def log_error_def bind_emit bind_call bind_lift return_def
        split: answer.splits sum.splits)

lemma detect_conf_var_complete:
  assumes "kerberos_ccache (conf e) = Some cc"
  shows "detect_conf_var e s =
     (let ans = read_answer e (trace s) cc; s' = s\<lparr>trace := trace s @ [Open_rb cc ans]\<rparr>
      in case ans of None \<Rightarrow> (s', Inl OSError)
         | Some data \<Rightarrow> (s', Inr (bytes_in ''X-CACHECONF:'' data)))"
  unfolding detect_conf_var_def
  by (simp add: assms conf_reads bind_lift bind_open return_def Let_def split: option.splits)

lemma perform_krb181_workaround_effects:
  assumes run: "perform_krb181_workaround e p s = (s', r)"
    and conf: "kerberos_kinit_path (conf e) = Some kinit" "kerberos_ccache (conf e) = Some cc"
      "p \<noteq> [] \<or> kerberos_principal (conf e) \<noteq> None"
  shows "\<exists>es cans. trace s' = trace s @ es \<and> consistent e (trace s) es
           \<and> effects es = [Call [kinit, ''-c'', cc, ''-R''] cans]
           \<and> r = (case cans of Fails \<Rightarrow> Inl OSError | Hangs \<Rightarrow> Inl Blocked
                    | Answers ret \<Rightarrow> Inr ret)
           \<and> NEED_KRB181_WORKAROUND s' = NEED_KRB181_WORKAROUND s"
proof -
  let ?cmdv = "[kinit, ''-c'', cc, ''-R'']"
  let ?l1 = "Log INFO ''Renewing kerberos ticket to work around kerberos 1.8.1: %s'' [join '' '' ?cmdv]"
  let ?cans = "call_answer e (trace s @ [?l1]) ?cmdv"
  have "\<exists>q. (if p \<noteq> [] then Inr p else conf_get (kerberos_principal (conf e))) = Inr q"
    using conf(3) by (cases "kerberos_principal (conf e)") (auto simp: conf_reads)
  then obtain q where q: "(if p \<noteq> [] then Inr p else conf_get (kerberos_principal (conf e))) = Inr q"
    by blast
  let ?l2 = "Log ERROR krb181_message [q @ ''/'' @ get_hostname e, cc, q @ ''/'' @ get_hostname e]"
  show ?thesis
  proof (cases ?cans)
    case Fails
    with run have "s' = s\<lparr>trace := trace s @ [?l1, Call ?cmdv ?cans]\<rparr>" "r = Inl OSError"
      by (simp_all add: perform_krb181_workaround_complete[OF conf(1,2)] Let_def)
    with Fails show ?thesis
      by (intro exI[of _ "[?l1, Call ?cmdv ?cans]"] exI[of _ ?cans]) (simp add: effects_simps)
  next
    case Hangs
    with run have "s' = s\<lparr>trace := trace s @ [?l1, Call ?cmdv ?cans]\<rparr>" "r = Inl Blocked"
      by (simp_all add: perform_krb181_workaround_complete[OF conf(1,2)] Let_def)
    with Hangs show ?thesis
      by (intro exI[of _ "[?l1, Call ?cmdv ?cans]"] exI[of _ ?cans]) (simp add: effects_simps)
  next
    case (Answers ret)
    show ?thesis
    proof (cases "ret = 0")
      case True
      with run Answers have "s' = s\<lparr>trace := trace s @ [?l1, Call ?cmdv ?cans]\<rparr>" "r = Inr ret"
        by (simp_all add: perform_krb181_workaround_complete[OF conf(1,2)] Let_def)
      with Answers show ?thesis
        by (intro exI[of _ "[?l1, Call ?cmdv ?cans]"] exI[of _ ?cans])
           (simp add: effects_simps)
    next
      case False
      with run Answers q have "s' = s\<lparr>trace := trace s @ [?l1, Call ?cmdv ?cans, ?l2]\<rparr>"
          "r = Inr ret"
        by (simp_all add: perform_krb181_workaround_complete[OF conf(1,2)] Let_def)
      with Answers show ?thesis
        by (intro exI[of _ "[?l1, Call ?cmdv ?cans, ?l2]"] exI[of _ ?cans])
           (simp add: effects_simps)
    qed
  qed
qed

lemma renew_workaround_effects:
  assumes run: "renew_workaround e p x s = (s', r)"
    and conf: "kerberos_kinit_path (conf e) = Some kinit" "kerberos_ccache (conf e) = Some cc"
      "p \<noteq> [] \<or> kerberos_principal (conf e) \<noteq> None"
  shows "\<exists>es cans. trace s' = trace s @ es \<and> consistent e (trace s) es
           \<and> effects es = [Sleep (3 / 2), Call [kinit, ''-c'', cc, ''-R''] cans]
           \<and> r = workaround_outcome x cans
           \<and> NEED_KRB181_WORKAROUND s' = NEED_KRB181_WORKAROUND s"
proof -
  let ?s1 = "s\<lparr>trace := trace s @ [Sleep (3 / 2)]\<rparr>"
  have 1: "bind (perform_krb181_workaround e p) (\<lambda>ret.
         if x \<and> ret \<noteq> 0 then sys_exit ret else return ret) ?s1 = (s', r)"
    using run by (simp add: renew_workaround_def time_sleep_def bind_emit)
  obtain s2 r2 where 2: "perform_krb181_workaround e p ?s1 = (s2, r2)"
    by (cases "perform_krb181_workaround e p ?s1") auto
  have 3: "s' = s2" "r = (case r2 of Inl a \<Rightarrow> Inl a | Inr ret \<Rightarrow>
       if x \<and> ret \<noteq> 0 then Inl (SystemExit ret) else Inr ret)"
    using 1 2 by (auto simp: bind_def sys_exit_def raise_def return_def split: sum.splits if_splits)
  from perform_krb181_workaround_effects[OF 2 conf] obtain es cans where
    es: "trace s2 = trace ?s1 @ es" "consistent e (trace ?s1) es"
      "effects es = [Call [kinit, ''-c'', cc, ''-R''] cans]"
      "r2 = (case cans of Fails \<Rightarrow> Inl OSError | Hangs \<Rightarrow> Inl Blocked
              | Answers ret \<Rightarrow> Inr ret)"
      "NEED_KRB181_WORKAROUND s2 = NEED_KRB181_WORKAROUND ?s1"
    by blast
  show ?thesis
    using es 3
    by (intro exI[of _ "Sleep (3 / 2) # es"] exI[of _ cans])
       (simp add: effects_simps workaround_outcome_def split: answer.splits)
qed

lemma krb181_step_cases:
  assumes run: "krb181_step e p x s = (s', r)"
    and conf: "kerberos_kinit_path (conf e) = Some kinit" "kerberos_ccache (conf e) = Some cc"
      "p \<noteq> [] \<or> kerberos_principal (conf e) \<noteq> None"
  obtains
    (not_needed) "NEED_KRB181_WORKAROUND s = Some False" "s' = s" "r = Inr 0"
  | (needed) es cans where "NEED_KRB181_WORKAROUND s = Some True"
      "trace s' = trace s @ es" "consistent e (trace s) es"
      "effects es = [Sleep (3 / 2), Call [kinit, ''-c'', cc, ''-R''] cans]"
      "r = workaround_outcome x cans" "NEED_KRB181_WORKAROUND s' = Some True"
  | (detect_failed) "NEED_KRB181_WORKAROUND s = None" "read_answer e (trace s) cc = None"
      "s' = s\<lparr>trace := trace s @ [Open_rb cc None]\<rparr>" "r = Inl OSError"
  | (absent) data where "NEED_KRB181_WORKAROUND s = None"
      "read_answer e (trace s) cc = Some data" "\<not> bytes_in ''X-CACHECONF:'' data"
      "s' = s\<lparr>NEED_KRB181_WORKAROUND := Some False, trace := trace s @ [Open_rb cc (Some data)]\<rparr>"
      "r = Inr 0"
  | (present) data es cans where "NEED_KRB181_WORKAROUND s = None"
      "read_answer e (trace s) cc = Some data" "bytes_in ''X-CACHECONF:'' data"
      "trace s' = trace s @ Open_rb cc (Some data) # es"
      "consistent e (trace s @ [Open_rb cc (Some data)]) es"
      "effects es = [Sleep (3 / 2), Call [kinit, ''-c'', cc, ''-R''] cans]"
      "r = workaround_outcome x cans" "NEED_KRB181_WORKAROUND s' = Some True"
proof (cases "NEED_KRB181_WORKAROUND s")
  case None
  let ?ans = "read_answer e (trace s) cc"
  show ?thesis
  proof (cases ?ans)
    case rn: None
    from run None rn have "s' = s\<lparr>trace := trace s @ [Open_rb cc None]\<rparr>" "r = Inl OSError"
      by (simp_all add: krb181_step_def bind_def detect_conf_var_complete[OF conf(2)] Let_def)
    with None rn show ?thesis by (rule detect_failed)
  next
    case (Some data)
    let ?s1 = "s\<lparr>trace := trace s @ [Open_rb cc (Some data)],
                 NEED_KRB181_WORKAROUND := Some True\<rparr>"
    show ?thesis
    proof (cases "bytes_in ''X-CACHECONF:'' data")
      case False
      from run None Some False have "s' = s\<lparr>NEED_KRB181_WORKAROUND := Some False,
           trace := trace s @ [Open_rb cc (Some data)]\<rparr>" "r = Inr 0"
        by (auto simp add: krb181_step_def bind_def detect_conf_var_complete[OF conf(2)] Let_def
              return_def)
      with None Some False show ?thesis by (rule absent)
    next
      case True
      from run None Some True have "renew_workaround e p x ?s1 = (s', r)"
        by (simp add: krb181_step_def bind_def detect_conf_var_complete[OF conf(2)] Let_def)
      from renew_workaround_effects[OF this conf] obtain es cans where
        "trace s' = trace ?s1 @ es" "consistent e (trace ?s1) es"
        "effects es = [Sleep (3 / 2), Call [kinit, ''-c'', cc, ''-R''] cans]"
        "r = workaround_outcome x cans"
        "NEED_KRB181_WORKAROUND s' = NEED_KRB181_WORKAROUND ?s1"
        by blast
      with True have "trace s' = trace s @ Open_rb cc (Some data) # es"
        "consistent e (trace s @ [Open_rb cc (Some data)]) es"
        "effects es = [Sleep (3 / 2), Call [kinit, ''-c'', cc, ''-R''] cans]"
        "r = workaround_outcome x cans" "NEED_KRB181_WORKAROUND s' = Some True"
        by simp_all
      with None Some True show ?thesis by (rule present)
    qed
  qed
next
  case (Some b)
  show ?thesis
  proof (cases b)
    case False
    with run Some have "s' = s" "r = Inr 0"
      by (simp_all add: krb181_step_def bind_def return_def)
    with Some False show ?thesis by (auto intro: not_needed)
  next
    case True
    with run Some have "renew_workaround e p x s = (s', r)"
      by (simp add: krb181_step_def bind_def)
    from renew_workaround_effects[OF this conf] obtain es cans where
      "trace s' = trace s @ es" "consistent e (trace s) es"
      "effects es = [Sleep (3 / 2), Call [kinit, ''-c'', cc, ''-R''] cans]"
      "r = workaround_outcome x cans"
      "NEED_KRB181_WORKAROUND s' = NEED_KRB181_WORKAROUND s"
      by blast
    with Some True show ?thesis by (auto intro: needed)
  qed
qed

subsection \<open>The cases of \<^verbatim>\<open>renew_from_kt\<close>\<close>

lemma renew_from_kt_complete:
  assumes "conf_values e princ freq p fw ip kinit cc"
  shows "renew_from_kt e princ keytab exit_on_fail s =
     bind (log_info ''Re-initialising kerberos from keytab: %s''
             [join '' '' (map shlex_quote (kinit_cmdv kinit fw ip freq keytab cc p))]) (\<lambda>_.
     bind (subprocess_Popen e (kinit_cmdv kinit fw ip freq keytab cc p)) (\<lambda>(returncode, stdout, stderr).
     if returncode \<noteq> 0 then
       bind (readlines stdout) (\<lambda>out.
       bind (readlines stderr) (\<lambda>err.
       bind (log_error reinit_message
               [str_int returncode, join [CHR 0x0A] out, join [CHR 0x0A] err]) (\<lambda>_.
       if exit_on_fail then sys_exit returncode else return returncode)))
     else krb181_step e p exit_on_fail)) s"
proof -
  from assms have c: "kerberos_reinit_frequency (conf e) = Some freq"
    "get_kerberos_principal e princ = Inr p"
    "kerberos_forwardable (conf e) = Some fw" "kerberos_include_ip (conf e) = Some ip"
    "kerberos_kinit_path (conf e) = Some kinit" "kerberos_ccache (conf e) = Some cc"
    by (simp_all add: conf_values_def)
  show ?thesis
    unfolding renew_from_kt_def krb181_step_def renew_workaround_def kinit_cmdv_def
    by (simp only: c bind_lift_Inl bind_lift_Inr conf_reads Let_def)
qed

lemma renew_from_kt_incomplete:
  assumes "\<not> (\<exists>freq p fw ip kinit cc. conf_values e princ freq p fw ip kinit cc)"
  shows "renew_from_kt e princ keytab exit_on_fail s = (s, Inl ConfigurationError)"
proof (cases "kerberos_reinit_frequency (conf e)")
  case None
  then show ?thesis
    unfolding renew_from_kt_def by (simp only: bind_lift_Inl conf_reads)
next
  case f: (Some freq)
  show ?thesis
  proof (cases "get_kerberos_principal e princ")
    case (Inl a)
    with get_kerberos_principal_Inl[OF Inl] f show ?thesis
      unfolding renew_from_kt_def by (simp only: bind_lift_Inl bind_lift_Inr conf_reads Let_def)
  next
    case p: (Inr p)
    show ?thesis
    proof (cases "kerberos_forwardable (conf e)")
      case None
      with f p show ?thesis
        unfolding renew_from_kt_def by (simp only: bind_lift_Inl bind_lift_Inr conf_reads Let_def)
    next
      case fw: (Some fw)
      show ?thesis
      proof (cases "kerberos_include_ip (conf e)")
        case None
        with f p fw show ?thesis
          unfolding renew_from_kt_def
          by (simp only: bind_lift_Inl bind_lift_Inr conf_reads Let_def)
      next
        case ip: (Some ip)
        show ?thesis
        proof (cases "kerberos_kinit_path (conf e)")
          case None
          with f p fw ip show ?thesis
            unfolding renew_from_kt_def
            by (simp only: bind_lift_Inl bind_lift_Inr conf_reads Let_def)
        next
          case k: (Some k)
          with assms f p fw ip have "kerberos_ccache (conf e) = None"
            by (cases "kerberos_ccache (conf e)") (auto simp: conf_values_def)
          with f p fw ip k show ?thesis
            unfolding renew_from_kt_def
            by (simp only: bind_lift_Inl bind_lift_Inr conf_reads Let_def)
        qed
      qed
    qed
  qed
qed

text \<open>Every run of \<^verbatim>\<open>renew_from_kt\<close> is one of ten: the configuration is incomplete;
  the spawn fails; the child never exits; \<^verbatim>\<open>kinit\<close> exits with a status other than 0 and
  a pipe does not decode, or both decode; or it exits with 0 and the global says no
  workaround, or says workaround, or is unset and the cache cannot be read, holds no
  marker, or holds the marker.\<close>

lemma renew_from_kt_cases [consumes 1, case_names config spawn_failed spawn_hangs undecodable
    tool_failed not_needed needed detect_failed absent present]:
  assumes run: "renew_from_kt e princ keytab x s = (s', r)"
  obtains
    (config) "\<not> (\<exists>freq p fw ip kinit cc. conf_values e princ freq p fw ip kinit cc)"
      "s' = s" "r = Inl ConfigurationError"
  | (spawn_failed) freq p fw ip kinit cc es where
      "conf_values e princ freq p fw ip kinit cc" "trace s' = trace s @ es"
      "consistent e (trace s) es"
      "effects es = [Popen (kinit_cmdv kinit fw ip freq keytab cc p) Fails]"
      "r = Inl OSError" "NEED_KRB181_WORKAROUND s' = NEED_KRB181_WORKAROUND s"
  | (spawn_hangs) freq p fw ip kinit cc es where
      "conf_values e princ freq p fw ip kinit cc" "trace s' = trace s @ es"
      "consistent e (trace s) es"
      "effects es = [Popen (kinit_cmdv kinit fw ip freq keytab cc p) Hangs]"
      "r = Inl Blocked" "NEED_KRB181_WORKAROUND s' = NEED_KRB181_WORKAROUND s"
  | (undecodable) freq p fw ip kinit cc es rc so se where
      "conf_values e princ freq p fw ip kinit cc" "trace s' = trace s @ es"
      "consistent e (trace s) es" "rc \<noteq> 0" "so = None \<or> se = None"
      "effects es = [Popen (kinit_cmdv kinit fw ip freq keytab cc p) (Answers (rc, so, se))]"
      "filter is_error es = []"
      "r = Inl UnicodeDecodeError" "NEED_KRB181_WORKAROUND s' = NEED_KRB181_WORKAROUND s"
  | (tool_failed) freq p fw ip kinit cc es rc out err where
      "conf_values e princ freq p fw ip kinit cc" "trace s' = trace s @ es"
      "consistent e (trace s) es" "rc \<noteq> 0"
      "effects es = [Popen (kinit_cmdv kinit fw ip freq keytab cc p)
         (Answers (rc, Some out, Some err))]"
      "filter is_error es = [Log ERROR reinit_message
         [str_int rc, join [CHR 0x0A] out, join [CHR 0x0A] err]]"
      "r = (if x then Inl (SystemExit rc) else Inr rc)"
      "NEED_KRB181_WORKAROUND s' = NEED_KRB181_WORKAROUND s"
  | (not_needed) freq p fw ip kinit cc es so se where
      "conf_values e princ freq p fw ip kinit cc" "trace s' = trace s @ es"
      "consistent e (trace s) es"
      "NEED_KRB181_WORKAROUND s = Some False"
      "effects es = [Popen (kinit_cmdv kinit fw ip freq keytab cc p) (Answers (0, so, se))]"
      "r = Inr 0" "NEED_KRB181_WORKAROUND s' = Some False"
  | (needed) freq p fw ip kinit cc es so se cans where
      "conf_values e princ freq p fw ip kinit cc" "trace s' = trace s @ es"
      "consistent e (trace s) es"
      "NEED_KRB181_WORKAROUND s = Some True"
      "effects es = [Popen (kinit_cmdv kinit fw ip freq keytab cc p) (Answers (0, so, se)),
         Sleep (3 / 2), Call [kinit, ''-c'', cc, ''-R''] cans]"
      "r = workaround_outcome x cans" "NEED_KRB181_WORKAROUND s' = Some True"
  | (detect_failed) freq p fw ip kinit cc es so se where
      "conf_values e princ freq p fw ip kinit cc" "trace s' = trace s @ es"
      "consistent e (trace s) es"
      "NEED_KRB181_WORKAROUND s = None"
      "effects es = [Popen (kinit_cmdv kinit fw ip freq keytab cc p) (Answers (0, so, se)),
         Open_rb cc None]"
      "r = Inl OSError" "NEED_KRB181_WORKAROUND s' = None"
  | (absent) freq p fw ip kinit cc es so se data where
      "conf_values e princ freq p fw ip kinit cc" "trace s' = trace s @ es"
      "consistent e (trace s) es"
      "NEED_KRB181_WORKAROUND s = None" "\<not> bytes_in ''X-CACHECONF:'' data"
      "effects es = [Popen (kinit_cmdv kinit fw ip freq keytab cc p) (Answers (0, so, se)),
         Open_rb cc (Some data)]"
      "r = Inr 0" "NEED_KRB181_WORKAROUND s' = Some False"
  | (present) freq p fw ip kinit cc es so se data cans where
      "conf_values e princ freq p fw ip kinit cc" "trace s' = trace s @ es"
      "consistent e (trace s) es"
      "NEED_KRB181_WORKAROUND s = None" "bytes_in ''X-CACHECONF:'' data"
      "effects es = [Popen (kinit_cmdv kinit fw ip freq keytab cc p) (Answers (0, so, se)),
         Open_rb cc (Some data), Sleep (3 / 2), Call [kinit, ''-c'', cc, ''-R''] cans]"
      "r = workaround_outcome x cans" "NEED_KRB181_WORKAROUND s' = Some True"
proof (cases "\<exists>freq p fw ip kinit cc. conf_values e princ freq p fw ip kinit cc")
  case False
  from renew_from_kt_incomplete[OF False] run False show ?thesis by (auto intro: config)
next
  case True
  then obtain freq p fw ip kinit cc where cv: "conf_values e princ freq p fw ip kinit cc"
    by blast
  then have conf: "kerberos_kinit_path (conf e) = Some kinit" "kerberos_ccache (conf e) = Some cc"
    "p \<noteq> [] \<or> kerberos_principal (conf e) \<noteq> None"
    using get_kerberos_principal_empty[of e princ] by (auto simp: conf_values_def)
  let ?cmdv = "kinit_cmdv kinit fw ip freq keytab cc p"
  let ?l1 = "Log INFO ''Re-initialising kerberos from keytab: %s'' [join '' '' (map shlex_quote ?cmdv)]"
  let ?ans = "popen_answer e (trace s @ [?l1]) ?cmdv"
  let ?s2 = "s\<lparr>trace := trace s @ [?l1, Popen ?cmdv ?ans]\<rparr>"
  note unfold = renew_from_kt_complete[OF cv] log_info_def log_error_def bind_emit bind_Popen
    bind_readlines Let_def
  show ?thesis
  proof (cases ?ans)
    case Fails
    with run have "s' = ?s2" "r = Inl OSError"
      by (simp_all add: unfold)
    with Fails have "trace s' = trace s @ [?l1, Popen ?cmdv Fails]" "r = Inl OSError"
      "NEED_KRB181_WORKAROUND s' = NEED_KRB181_WORKAROUND s"
      by simp_all
    with Fails show ?thesis
      by (intro spawn_failed[OF cv, of "[?l1, Popen ?cmdv Fails]"]) (simp_all add: effects_simps)
  next
    case Hangs
    with run have "s' = ?s2" "r = Inl Blocked"
      by (simp_all add: unfold)
    with Hangs have "trace s' = trace s @ [?l1, Popen ?cmdv Hangs]" "r = Inl Blocked"
      "NEED_KRB181_WORKAROUND s' = NEED_KRB181_WORKAROUND s"
      by simp_all
    with Hangs show ?thesis
      by (intro spawn_hangs[OF cv, of "[?l1, Popen ?cmdv Hangs]"]) (simp_all add: effects_simps)
  next
    case (Answers a)
    obtain rc so se where a: "a = (rc, so, se)" by (cases a) auto
    show ?thesis
    proof (cases "rc = 0")
      case False
      show ?thesis
      proof (cases "so = None \<or> se = None")
        case True
        with run Answers a False have "s' = ?s2" "r = Inl UnicodeDecodeError"
          by (auto simp add: unfold split: option.splits)
        with Answers a have "trace s' = trace s @ [?l1, Popen ?cmdv (Answers (rc, so, se))]"
          "r = Inl UnicodeDecodeError"
          "NEED_KRB181_WORKAROUND s' = NEED_KRB181_WORKAROUND s"
          by simp_all
        with Answers a True show ?thesis
          by (intro undecodable[OF cv, of "[?l1, Popen ?cmdv (Answers (rc, so, se))]" rc so se])
             (simp_all add: effects_simps \<open>rc \<noteq> 0\<close>)
      next
        case dec: False
        then obtain out err where oe: "so = Some out" "se = Some err" by auto
        let ?l2 = "Log ERROR reinit_message [str_int rc, join [CHR 0x0A] out, join [CHR 0x0A] err]"
        from run Answers a False oe have "s' = s\<lparr>trace := trace s @ [?l1, Popen ?cmdv ?ans, ?l2]\<rparr>"
            "r = (if x then Inl (SystemExit rc) else Inr rc)"
          by (auto simp add: unfold sys_exit_def raise_def return_def split: if_splits)
        with Answers a oe have
          "trace s' = trace s @ [?l1, Popen ?cmdv (Answers (rc, Some out, Some err)), ?l2]"
          "r = (if x then Inl (SystemExit rc) else Inr rc)"
          "NEED_KRB181_WORKAROUND s' = NEED_KRB181_WORKAROUND s"
          by simp_all
        with Answers a oe show ?thesis
          by (intro tool_failed[OF cv,
                of "[?l1, Popen ?cmdv (Answers (rc, Some out, Some err)), ?l2]" rc out err])
             (simp_all add: effects_simps False)
      qed
    next
      case True
      let ?ok = "Popen ?cmdv (Answers (0, so, se))"
      from run Answers a True have step: "krb181_step e p x ?s2 = (s', r)"
        by (simp add: unfold)
      have s2: "trace ?s2 = trace s @ [?l1, ?ok]"
        "NEED_KRB181_WORKAROUND ?s2 = NEED_KRB181_WORKAROUND s"
        "consistent e (trace s) [?l1, ?ok]"
        using Answers a True by simp_all
      from step conf show ?thesis
      proof (cases rule: krb181_step_cases)
        case not_needed
        with s2 show ?thesis
          by (intro that(6)[OF cv, of "[?l1, ?ok]" so se]) (simp_all add: effects_simps)
      next
        case (needed es cans)
        with s2 show ?thesis
          by (intro that(7)[OF cv, of "[?l1, ?ok] @ es" so se cans])
             (simp_all add: effects_simps)
      next
        case detect_failed
        with s2 show ?thesis
          by (intro that(8)[OF cv, of "[?l1, ?ok, Open_rb cc None]" so se])
             (simp_all add: effects_simps)
      next
        case (absent data)
        with s2 show ?thesis
          by (intro that(9)[OF cv, of "[?l1, ?ok, Open_rb cc (Some data)]" data so se])
             (simp_all add: effects_simps)
      next
        case (present data es cans)
        with s2 show ?thesis
          by (intro that(10)[OF cv, of "[?l1, ?ok, Open_rb cc (Some data)] @ es" data so se cans])
             (simp_all add: effects_simps)
      qed
    qed
  qed
qed

lemma conf_values_unique:
  assumes "conf_values e princ freq p fw ip kinit cc"
    and "conf_values e princ freq' p' fw' ip' kinit' cc'"
  shows "freq' = freq \<and> p' = p \<and> fw' = fw \<and> ip' = ip \<and> kinit' = kinit \<and> cc' = cc"
  using assms by (simp add: conf_values_def)

lemma renew_from_kt_extends:
  assumes "renew_from_kt e princ keytab x s = (s', r)"
  shows "trace s' = trace s @ new_events s s'"
  using assms by (cases rule: renew_from_kt_cases) (simp_all add: new_events_def)

text \<open>With a complete configuration \<^verbatim>\<open>renew_from_kt\<close> spawns the command it built, and the
  trace holds what the world answered.\<close>

lemma renew_from_kt_spawned:
  assumes run: "renew_from_kt e princ keytab x s = (s', r)"
    and cv: "conf_values e princ freq p fw ip kinit cc"
  shows "\<exists>tr. Popen (kinit_cmdv kinit fw ip freq keytab cc p)
                 (popen_answer e tr (kinit_cmdv kinit fw ip freq keytab cc p))
               \<in> set (new_events s s')"
proof -
  have *: "\<exists>tr. Popen c (popen_answer e tr c) \<in> set es"
    if "consistent e (trace s) es" "Popen c a \<in> set (effects es)" for es c a
    using consistent_Popen[OF that(1), of c a] that(2) by (auto simp: effects_def)
  from run cv show ?thesis
  proof (cases rule: renew_from_kt_cases)
    case config
    with cv show ?thesis by blast
  next
    case (spawn_failed freq' p' fw' ip' kinit' cc' es)
    with conf_values_unique[OF cv spawn_failed(1)] *[of es] show ?thesis
      by (simp add: new_events_append)
  next
    case (spawn_hangs freq' p' fw' ip' kinit' cc' es)
    with conf_values_unique[OF cv spawn_hangs(1)] *[of es] show ?thesis
      by (simp add: new_events_append)
  next
    case (undecodable freq' p' fw' ip' kinit' cc' es rc so se)
    with conf_values_unique[OF cv undecodable(1)] *[of es] show ?thesis
      by (simp add: new_events_append)
  next
    case (tool_failed freq' p' fw' ip' kinit' cc' es rc out err)
    with conf_values_unique[OF cv tool_failed(1)] *[of es] show ?thesis
      by (simp add: new_events_append)
  next
    case (not_needed freq' p' fw' ip' kinit' cc' es so se)
    with conf_values_unique[OF cv not_needed(1)] *[of es] show ?thesis
      by (simp add: new_events_append)
  next
    case (needed freq' p' fw' ip' kinit' cc' es so se cans)
    with conf_values_unique[OF cv needed(1)] *[of es] show ?thesis
      by (simp add: new_events_append)
  next
    case (detect_failed freq' p' fw' ip' kinit' cc' es so se)
    with conf_values_unique[OF cv detect_failed(1)] *[of es] show ?thesis
      by (simp add: new_events_append)
  next
    case (absent freq' p' fw' ip' kinit' cc' es so se data)
    with conf_values_unique[OF cv absent(1)] *[of es] show ?thesis
      by (simp add: new_events_append)
  next
    case (present freq' p' fw' ip' kinit' cc' es so se data cans)
    with conf_values_unique[OF cv present(1)] *[of es] show ?thesis
      by (simp add: new_events_append)
  qed
qed


subsection \<open>The example deployment\<close>

lemma example_principal:
  "get_kerberos_principal (example_env rc ret file) None = Inr ''airflow/worker1@EXAMPLE.COM''"
  by (simp add: get_kerberos_principal_def get_mandatory_value_def example_env_def
        example_conf_def)

lemma example_conf_values:
  "conf_values (example_env rc ret file) None 3600 ''airflow/worker1@EXAMPLE.COM'' True True
     ''kinit'' ''/tmp/airflow_krb5_ccache''"
  unfolding conf_values_def example_principal
  by (simp add: example_env_def example_conf_def)

lemma example_spawned:
  "Popen (kinit_cmdv ''kinit'' True True 3600 keytab ''/tmp/airflow_krb5_ccache''
            ''airflow/worker1@EXAMPLE.COM'') (Answers (rc, Some [], Some [''kinit: status'']))
   \<in> set (new_events s (fst (renew_from_kt (example_env rc ret file) None keytab x s)))"
proof -
  let ?run = "renew_from_kt (example_env rc ret file) None keytab x s"
  have "?run = (fst ?run, snd ?run)" by simp
  from renew_from_kt_spawned[OF this example_conf_values] show ?thesis
    by (simp add: example_env_def)
qed



section \<open>Properties of the renewer\<close>




lemma run_one_time:
  "keytab \<noteq> [] \<Longrightarrow>
   run e fuel princ keytab ONE_TIME s =
     (case renew_from_kt e princ keytab True
             (s\<lparr>trace := trace s @ [Log INFO ''Using airflow kerberos with mode: %s'' [''one-time'']]\<rparr>) of
        (s2, Inl x) \<Rightarrow> (s2, Some (Inl x))
      | (s2, Inr v) \<Rightarrow> (s2, Some (Inr ())))"
  by (simp add: run_def log_info_def emit_def)

lemma run_one_time_events:
  assumes kt: "keytab \<noteq> []" and run: "run e fuel princ keytab ONE_TIME s = (s', r)"
  obtains s0 r2 where
    "s0 = s\<lparr>trace := trace s @ [Log INFO ''Using airflow kerberos with mode: %s'' [''one-time'']]\<rparr>"
    "renew_from_kt e princ keytab True s0 = (s', r2)"
    "r = Some (case r2 of Inl x \<Rightarrow> Inl x | Inr v \<Rightarrow> Inr ())"
    "new_events s s' = Log INFO ''Using airflow kerberos with mode: %s'' [''one-time'']
        # new_events s0 s'"
proof -
  let ?s0 = "s\<lparr>trace := trace s @ [Log INFO ''Using airflow kerberos with mode: %s'' [''one-time'']]\<rparr>"
  obtain s2 r2 where 2: "renew_from_kt e princ keytab True ?s0 = (s2, r2)"
    by (cases "renew_from_kt e princ keytab True ?s0") auto
  with run kt have 3: "s' = s2" "r = Some (case r2 of Inl x \<Rightarrow> Inl x | Inr v \<Rightarrow> Inr ())"
    by (auto simp: run_one_time split: sum.splits)
  from renew_from_kt_extends[OF 2] 3 have "trace s' = trace s @
      Log INFO ''Using airflow kerberos with mode: %s'' [''one-time''] # new_events ?s0 s'"
    by simp
  then have "new_events s s' = Log INFO ''Using airflow kerberos with mode: %s'' [''one-time'']
        # new_events ?s0 s'"
    by (rule new_events_append)
  with 2 3 show ?thesis by (intro that[of ?s0 r2]) simp_all
qed




lemma empty_keytab_events:
  "run e fuel princ [] mode s =
     (s\<lparr>trace := trace s @ [Log WARNING ''Keytab renewer not starting, no keytab configured'' []]\<rparr>,
      Some (Inl (SystemExit 0)))
   \<and> new_events s (fst (run e fuel princ [] mode s))
       = [Log WARNING ''Keytab renewer not starting, no keytab configured'' []]"
  by (simp add: run_def bind_def log_warning_def emit_def sys_exit_def raise_def new_events_def)

text \<open>C6. For every principal and mode, when the keytab given to \<^verbatim>\<open>run\<close> is empty,
  \<^verbatim>\<open>run\<close> logs one warning and ends in \<^verbatim>\<open>SystemExit(0)\<close>, which terminates the process
  with status 0; nothing else happens, so the renewal tool is never spawned.\<close>

theorem run_without_keytab:
  "run e fuel princ [] mode s =
     (s\<lparr>trace := trace s @ [Log WARNING ''Keytab renewer not starting, no keytab configured'' []]\<rparr>,
      Some (Inl (SystemExit 0)))
   \<and> new_events s (fst (run e fuel princ [] mode s))
       = [Log WARNING ''Keytab renewer not starting, no keytab configured'' []]
   \<and> filter is_Popen (new_events s (fst (run e fuel princ [] mode s))) = []"
  by (simp add: run_def bind_def log_warning_def emit_def sys_exit_def raise_def new_events_def)

text \<open>C4. For every content of the ticket cache, \<^verbatim>\<open>detect_conf_var\<close> opens the configured
  cache once and returns true if and only if the bytes \<^verbatim>\<open>X-CACHECONF:\<close> occur somewhere
  in the content.\<close>

theorem detect_conf_var_marker:
  assumes "kerberos_ccache (conf e) = Some cc" and "read_answer e (trace s) cc = Some data"
  shows "detect_conf_var e s =
     (s\<lparr>trace := trace s @ [Open_rb cc (Some data)]\<rparr>,
      Inr (\<exists>pre post. data = pre @ ''X-CACHECONF:'' @ post))"
  using assms by (simp add: detect_conf_var_complete bytes_in_iff)

theorem detect_conf_var_marker_witness:
  "snd (detect_conf_var (example_env 0 0 (Some [])) init_state) = Inr False
   \<and> snd (detect_conf_var (example_env 0 0 (Some ''krb5 X-CACHECONF'')) init_state) = Inr False
   \<and> snd (detect_conf_var (example_env 0 0 (Some ''X-CACHECONF:krb5'')) init_state) = Inr True
   \<and> snd (detect_conf_var (example_env 0 0 (Some ''krb5 X-CACHECONF: conf'')) init_state) = Inr True
   \<and> snd (detect_conf_var (example_env 0 0 (Some ''krb5 X-CACHECONF:'')) init_state) = Inr True"
proof -
  have cc: "kerberos_ccache (conf (example_env 0 0 content)) = Some ''/tmp/airflow_krb5_ccache''"
    for content by (simp add: example_env_def example_conf_def)
  have rd: "read_answer (example_env 0 0 (Some data)) (trace init_state)
      ''/tmp/airflow_krb5_ccache'' = Some data" for data
    by (simp add: example_env_def)
  have m: "(\<exists>pre post. data = pre @ ''X-CACHECONF:'' @ post) = bytes_in ''X-CACHECONF:'' data"
    for data by (simp only: bytes_in_iff)
  have r: "snd (detect_conf_var (example_env 0 0 (Some data)) init_state)
      = Inr (bytes_in ''X-CACHECONF:'' data)" for data
    by (simp only: detect_conf_var_marker[OF cc rd] m snd_conv)
  show ?thesis unfolding r by simp
qed

text \<open>C5. A non-empty explicit principal is returned unchanged, whatever the configuration
  holds. With no explicit principal (\<^verbatim>\<open>None\<close> or empty), the result is the configured
  template with every occurrence of \<^verbatim>\<open>_HOST\<close> replaced by the host name: a template
  that is pieces free of \<^verbatim>\<open>_HOST\<close> joined by \<^verbatim>\<open>_HOST\<close> becomes the same pieces joined
  by the host name, and every template is such pieces. With no explicit principal and none
  configured, the call fails with a configuration error.\<close>

theorem get_kerberos_principal_resolves:
  "(p \<noteq> [] \<longrightarrow> get_kerberos_principal e (Some p) = Inr p)
   \<and> (\<not> truthy princ \<and> kerberos_principal (conf e) = Some (join ''_HOST'' pieces)
        \<and> (\<forall>x\<in>set pieces. \<not> sublist ''_HOST'' x)
      \<longrightarrow> get_kerberos_principal e princ = Inr (join (get_hostname e) pieces))
   \<and> (\<not> truthy princ \<and> kerberos_principal (conf e) = Some t
      \<longrightarrow> (\<exists>pieces. t = join ''_HOST'' pieces \<and> (\<forall>x\<in>set pieces. \<not> sublist ''_HOST'' x)
            \<and> get_kerberos_principal e princ = Inr (join (get_hostname e) pieces)))
   \<and> (\<not> truthy princ \<and> kerberos_principal (conf e) = None
      \<longrightarrow> get_kerberos_principal e princ = Inl ConfigurationError)"
proof -
  have pieces: "get_kerberos_principal e princ = Inr (join (get_hostname e) ps)"
    if "\<not> truthy princ" "kerberos_principal (conf e) = Some (join ''_HOST'' ps)"
      "\<forall>x\<in>set ps. \<not> sublist ''_HOST'' x" for ps
  proof -
    from that(1,2) have "get_kerberos_principal e princ
        = Inr (replace ''_HOST'' (get_hostname e) (join ''_HOST'' ps))"
      by (cases princ) (simp_all add: get_kerberos_principal_def conf_reads)
    with that(3) show ?thesis by (simp add: replace_join)
  qed
  have 1: "p \<noteq> [] \<longrightarrow> get_kerberos_principal e (Some p) = Inr p"
    by (simp add: get_kerberos_principal_def)
  have 2: "\<not> truthy princ \<and> kerberos_principal (conf e) = Some (join ''_HOST'' pieces)
        \<and> (\<forall>x\<in>set pieces. \<not> sublist ''_HOST'' x)
      \<longrightarrow> get_kerberos_principal e princ = Inr (join (get_hostname e) pieces)"
    using pieces by blast
  have 3: "\<not> truthy princ \<and> kerberos_principal (conf e) = Some t
      \<longrightarrow> (\<exists>pieces. t = join ''_HOST'' pieces \<and> (\<forall>x\<in>set pieces. \<not> sublist ''_HOST'' x)
            \<and> get_kerberos_principal e princ = Inr (join (get_hostname e) pieces))"
    using pieces pieces_exist[of t] by blast
  have 4: "\<not> truthy princ \<and> kerberos_principal (conf e) = None
      \<longrightarrow> get_kerberos_principal e princ = Inl ConfigurationError"
    by (cases princ) (simp_all add: get_kerberos_principal_def conf_reads)
  from 1 2 3 4 show ?thesis by blast
qed

theorem get_kerberos_principal_resolves_witness:
  "get_kerberos_principal (example_env 0 0 None) (Some ''alice@EXAMPLE.COM'') = Inr ''alice@EXAMPLE.COM''
   \<and> get_kerberos_principal (example_env 0 0 None) None = Inr ''airflow/worker1@EXAMPLE.COM''
   \<and> get_kerberos_principal (example_env 0 0 None) (Some []) = Inr ''airflow/worker1@EXAMPLE.COM''
   \<and> get_kerberos_principal
        ((example_env 0 0 None)\<lparr>conf := (example_conf True True)\<lparr>kerberos_principal := None\<rparr>\<rparr>)
        None = Inl ConfigurationError"
proof -
  let ?e = "example_env 0 0 None"
  let ?e' = "?e\<lparr>conf := (example_conf True True)\<lparr>kerberos_principal := None\<rparr>\<rparr>"
  have t: "kerberos_principal (conf ?e) = Some (join ''_HOST'' [''airflow/'', ''@EXAMPLE.COM''])"
    by (simp add: example_env_def example_conf_def)
  have clean: "\<forall>x\<in>set [''airflow/'', ''@EXAMPLE.COM'']. \<not> sublist ''_HOST'' x"
    by (simp add: sublist_Cons_right)
  have h: "join (get_hostname ?e) [''airflow/'', ''@EXAMPLE.COM''] = ''airflow/worker1@EXAMPLE.COM''"
    by (simp add: example_env_def)
  have n: "kerberos_principal (conf ?e') = None" by simp
  from get_kerberos_principal_resolves[of "''alice@EXAMPLE.COM''" ?e None "[''airflow/'', ''@EXAMPLE.COM'']"]
    get_kerberos_principal_resolves[of "[]" ?e "Some []" "[''airflow/'', ''@EXAMPLE.COM'']"]
    get_kerberos_principal_resolves[of "[]" ?e' None "[]"]
    t clean h n
  show ?thesis by simp
qed

lemma renew_from_kt_consistent:
  assumes "renew_from_kt e princ keytab x s = (s', r)"
  shows "consistent e (trace s) (new_events s s')"
  using assms by (cases rule: renew_from_kt_cases) (simp_all add: new_events_def)

lemma kinit_ok_in: "Popen c (Answers (0, out, err)) \<in> set es \<Longrightarrow> list_ex kinit_ok es"
  by (auto simp: list_ex_iff intro!: bexI[of _ "Popen c (Answers (0, out, err))"])

text \<open>How \<^verbatim>\<open>renew_from_kt\<close> treats the global \<^verbatim>\<open>NEED_KRB181_WORKAROUND\<close>.\<close>

lemma lazy_detection:
  assumes run: "renew_from_kt e princ keytab x s = (s', r)"
  shows "(filter is_Open_rb (new_events s s') \<noteq> [] \<longrightarrow>
            NEED_KRB181_WORKAROUND s = None \<and> list_ex kinit_ok (new_events s s'))
      \<and> (NEED_KRB181_WORKAROUND s = None \<and> list_ex kinit_ok (new_events s s') \<longrightarrow>
            length (filter is_Open_rb (new_events s s')) = 1)
      \<and> (\<forall>b. NEED_KRB181_WORKAROUND s = Some b \<longrightarrow>
            NEED_KRB181_WORKAROUND s' = Some b \<and> filter is_Open_rb (new_events s s') = [])
      \<and> (NEED_KRB181_WORKAROUND s' = Some True \<and> list_ex kinit_ok (new_events s s') \<longrightarrow>
            length (filter is_Call (new_events s s')) = 1)
      \<and> (NEED_KRB181_WORKAROUND s' \<noteq> Some True \<longrightarrow> filter is_Call (new_events s s') = [])
      \<and> (\<forall>f data. Open_rb f (Some data) \<in> set (new_events s s') \<longrightarrow>
            NEED_KRB181_WORKAROUND s' = Some (bytes_in ''X-CACHECONF:'' data))
      \<and> (\<forall>f. Open_rb f None \<in> set (new_events s s') \<longrightarrow>
            r = Inl OSError \<and> NEED_KRB181_WORKAROUND s' = None)"
  using run
proof (cases rule: renew_from_kt_cases)
  case config
  then show ?thesis by (simp add: new_events_same)
next
  case (spawn_failed freq p fw ip kinit cc es)
  then show ?thesis
    by (simp add: new_events_append filter_effects[of es] list_ex_effects[of es]
          in_effects[of _ es])
next
  case (spawn_hangs freq p fw ip kinit cc es)
  then show ?thesis
    by (simp add: new_events_append filter_effects[of es] list_ex_effects[of es]
          in_effects[of _ es])
next
  case (undecodable freq p fw ip kinit cc es rc so se)
  then show ?thesis
    by (simp add: new_events_append filter_effects[of es] list_ex_effects[of es]
          in_effects[of _ es])
next
  case (tool_failed freq p fw ip kinit cc es rc out err)
  then show ?thesis
    by (simp add: new_events_append filter_effects[of es] list_ex_effects[of es]
          in_effects[of _ es])
next
  case (not_needed freq p fw ip kinit cc es so se)
  then show ?thesis
    by (simp add: new_events_append filter_effects[of es] list_ex_effects[of es]
          in_effects[of _ es])
next
  case (needed freq p fw ip kinit cc es so se cans)
  then show ?thesis
    by (simp add: new_events_append filter_effects[of es] list_ex_effects[of es]
          in_effects[of _ es])
next
  case (detect_failed freq p fw ip kinit cc es so se)
  then show ?thesis
    by (simp add: new_events_append filter_effects[of es] list_ex_effects[of es]
          in_effects[of _ es])
next
  case (absent freq p fw ip kinit cc es so se data)
  then show ?thesis
    by (simp add: new_events_append filter_effects[of es] list_ex_effects[of es]
          in_effects[of _ es])
next
  case (present freq p fw ip kinit cc es so se data cans)
  then show ?thesis
    by (simp add: new_events_append filter_effects[of es] list_ex_effects[of es]
          in_effects[of _ es])
qed

text \<open>When the detection runs, the trace holds what the world answered to the read.\<close>

lemma renew_from_kt_detects:
  assumes run: "renew_from_kt e princ keytab x s = (s', r)"
    and need: "NEED_KRB181_WORKAROUND s = None" and ok: "list_ex kinit_ok (new_events s s')"
  shows "\<exists>f tr. Open_rb f (read_answer e tr f) \<in> set (new_events s s')"
proof -
  from lazy_detection[OF run] need ok
  have "length (filter is_Open_rb (new_events s s')) = 1" by blast
  then have "filter is_Open_rb (new_events s s') \<noteq> []" by auto
  then obtain ev where ev: "ev \<in> set (new_events s s')" "is_Open_rb ev"
    by (auto simp: filter_empty_conv)
  from ev(2) obtain f a where "ev = Open_rb f a" by (cases ev) auto
  with ev consistent_Open_rb[OF renew_from_kt_consistent[OF run], of f a] show ?thesis
    by auto
qed

text \<open>C7. When the read of the ticket cache fails during the detection, the
  \<^verbatim>\<open>OSError\<close> leaves \<^verbatim>\<open>renew_from_kt\<close>: the cache was opened once in that call (no
  retry), the workaround is not called, and the global stays unset. So the next call in
  which \<^verbatim>\<open>kinit\<close> exits with 0 opens the cache again.\<close>

theorem detection_failure_not_cached:
  assumes "renew_from_kt e princ keytab x s = (s1, r1)"
    and "Open_rb f None \<in> set (new_events s s1)"
  shows "r1 = Inl OSError \<and> NEED_KRB181_WORKAROUND s1 = None
     \<and> length (filter is_Open_rb (new_events s s1)) = 1
     \<and> filter is_Call (new_events s s1) = []
     \<and> (renew_from_kt e princ' keytab' x' s1 = (s2, r2) \<and> list_ex kinit_ok (new_events s1 s2)
          \<longrightarrow> length (filter is_Open_rb (new_events s1 s2)) = 1)"
proof -
  note first = lazy_detection[OF assms(1)]
  from first assms(2) have r: "r1 = Inl OSError" "NEED_KRB181_WORKAROUND s1 = None" by blast+
  from assms(2) have "filter is_Open_rb (new_events s s1) \<noteq> []"
    by (auto simp: filter_empty_conv intro!: bexI[of _ "Open_rb f None"])
  with first have "length (filter is_Open_rb (new_events s s1)) = 1" by blast
  moreover from first r have "filter is_Call (new_events s s1) = []" by simp
  moreover have "length (filter is_Open_rb (new_events s1 s2)) = 1"
    if "renew_from_kt e princ' keytab' x' s1 = (s2, r2)" "list_ex kinit_ok (new_events s1 s2)"
    using lazy_detection[OF that(1)] r(2) that(2) by blast
  ultimately show ?thesis using r by blast
qed

text \<open>A world in which \<^verbatim>\<open>kinit\<close> succeeds and the ticket cache cannot be read: two calls
  in a row each open the cache once and end in \<^verbatim>\<open>OSError\<close>.\<close>

theorem detection_failure_not_cached_witness:
  "snd (renew_from_kt (example_env 0 0 None) None ''/etc/airflow.keytab'' True init_state)
     = Inl OSError
   \<and> NEED_KRB181_WORKAROUND
       (fst (renew_from_kt (example_env 0 0 None) None ''/etc/airflow.keytab'' True init_state))
     = None
   \<and> length (filter is_Open_rb (new_events init_state
       (fst (renew_from_kt (example_env 0 0 None) None ''/etc/airflow.keytab'' True init_state))))
     = 1
   \<and> length (filter is_Open_rb (new_events
       (fst (renew_from_kt (example_env 0 0 None) None ''/etc/airflow.keytab'' True init_state))
       (fst (renew_from_kt (example_env 0 0 None) None ''/etc/airflow.keytab'' True
          (fst (renew_from_kt (example_env 0 0 None) None ''/etc/airflow.keytab'' True
             init_state))))))
     = 1"
proof -
  let ?e = "example_env 0 0 None"
  let ?kt = "''/etc/airflow.keytab''"
  let ?a = "renew_from_kt ?e None ?kt True init_state"
  let ?b = "renew_from_kt ?e None ?kt True (fst ?a)"
  have a: "?a = (fst ?a, snd ?a)" and b: "?b = (fst ?b, snd ?b)" by simp_all
  have i: "NEED_KRB181_WORKAROUND init_state = None" by (simp add: init_state_def)
  have oka: "list_ex kinit_ok (new_events init_state (fst ?a))"
    and okb: "list_ex kinit_ok (new_events (fst ?a) (fst ?b))"
    by (rule kinit_ok_in[OF example_spawned])+
  from renew_from_kt_detects[OF a i oka]
  obtain f where rd: "Open_rb f None \<in> set (new_events init_state (fst ?a))"
    by (auto simp: example_env_def)
  from detection_failure_not_cached[OF a rd, of None ?kt True "fst ?b" "snd ?b"] b okb
  show ?thesis by simp
qed

text \<open>C2. With a complete configuration, whatever the two flags are,
  \<^verbatim>\<open>renew_from_kt\<close> spawns exactly one child process, and its argument list is, in this
  order: the configured \<^verbatim>\<open>kinit_path\<close>; \<^verbatim>\<open>-f\<close> if \<^verbatim>\<open>forwardable\<close> is set, else \<^verbatim>\<open>-F\<close>;
  \<^verbatim>\<open>-a\<close> if \<^verbatim>\<open>include_ip\<close> is set, else \<^verbatim>\<open>-A\<close>; \<^verbatim>\<open>-r\<close>; the configured
  \<^verbatim>\<open>reinit_frequency\<close> in decimal followed by \<^verbatim>\<open>m\<close>; \<^verbatim>\<open>-k\<close>; \<^verbatim>\<open>-t\<close>; the keytab;
  \<^verbatim>\<open>-c\<close>; the configured \<^verbatim>\<open>ccache\<close>; the resolved principal.\<close>

theorem renew_from_kt_command:
  assumes "kerberos_kinit_path (conf e) = Some kinit"
    and "kerberos_forwardable (conf e) = Some fw"
    and "kerberos_include_ip (conf e) = Some ip"
    and "kerberos_reinit_frequency (conf e) = Some N"
    and "kerberos_ccache (conf e) = Some cc"
    and "get_kerberos_principal e princ = Inr p"
    and "renew_from_kt e princ keytab exit_on_fail s = (s', r)"
  shows "popen_commands (new_events s s') =
     [[kinit, if fw then ''-f'' else ''-F'', if ip then ''-a'' else ''-A'', ''-r'',
       str_int N @ ''m'', ''-k'', ''-t'', keytab, ''-c'', cc, p]]"
proof -
  from assms(1-6) have cv: "conf_values e princ N p fw ip kinit cc"
    by (simp add: conf_values_def)
  have "popen_commands (new_events s s') = [kinit_cmdv kinit fw ip N keytab cc p]"
    using assms(7)
  proof (cases rule: renew_from_kt_cases)
    case config
    with cv show ?thesis by blast
  next
    case (spawn_failed freq' p' fw' ip' kinit' cc' es)
    with conf_values_unique[OF cv spawn_failed(1)] show ?thesis
      by (simp add: new_events_append popen_commands_effects[of es])
  next
    case (spawn_hangs freq' p' fw' ip' kinit' cc' es)
    with conf_values_unique[OF cv spawn_hangs(1)] show ?thesis
      by (simp add: new_events_append popen_commands_effects[of es])
  next
    case (undecodable freq' p' fw' ip' kinit' cc' es rc so se)
    with conf_values_unique[OF cv undecodable(1)] show ?thesis
      by (simp add: new_events_append popen_commands_effects[of es])
  next
    case (tool_failed freq' p' fw' ip' kinit' cc' es rc out err)
    with conf_values_unique[OF cv tool_failed(1)] show ?thesis
      by (simp add: new_events_append popen_commands_effects[of es])
  next
    case (not_needed freq' p' fw' ip' kinit' cc' es so se)
    with conf_values_unique[OF cv not_needed(1)] show ?thesis
      by (simp add: new_events_append popen_commands_effects[of es])
  next
    case (needed freq' p' fw' ip' kinit' cc' es so se cans)
    with conf_values_unique[OF cv needed(1)] show ?thesis
      by (simp add: new_events_append popen_commands_effects[of es])
  next
    case (detect_failed freq' p' fw' ip' kinit' cc' es so se)
    with conf_values_unique[OF cv detect_failed(1)] show ?thesis
      by (simp add: new_events_append popen_commands_effects[of es])
  next
    case (absent freq' p' fw' ip' kinit' cc' es so se data)
    with conf_values_unique[OF cv absent(1)] show ?thesis
      by (simp add: new_events_append popen_commands_effects[of es])
  next
    case (present freq' p' fw' ip' kinit' cc' es so se data cans)
    with conf_values_unique[OF cv present(1)] show ?thesis
      by (simp add: new_events_append popen_commands_effects[of es])
  qed
  then show ?thesis by (simp add: kinit_cmdv_def)
qed

lemma str_int_3600: "str_int 3600 = ''3600''"
  by (simp add: str_int_def)

theorem renew_from_kt_command_witness:
  "popen_commands (new_events init_state (fst (renew_from_kt
       ((example_env 0 0 None)\<lparr>conf := example_conf True True\<rparr>) None ''/etc/airflow.keytab''
       True init_state)))
     = [[''kinit'', ''-f'', ''-a'', ''-r'', ''3600m'', ''-k'', ''-t'', ''/etc/airflow.keytab'',
         ''-c'', ''/tmp/airflow_krb5_ccache'', ''airflow/worker1@EXAMPLE.COM'']]
   \<and> popen_commands (new_events init_state (fst (renew_from_kt
       ((example_env 0 0 None)\<lparr>conf := example_conf True False\<rparr>) None ''/etc/airflow.keytab''
       True init_state)))
     = [[''kinit'', ''-f'', ''-A'', ''-r'', ''3600m'', ''-k'', ''-t'', ''/etc/airflow.keytab'',
         ''-c'', ''/tmp/airflow_krb5_ccache'', ''airflow/worker1@EXAMPLE.COM'']]
   \<and> popen_commands (new_events init_state (fst (renew_from_kt
       ((example_env 0 0 None)\<lparr>conf := example_conf False True\<rparr>) None ''/etc/airflow.keytab''
       True init_state)))
     = [[''kinit'', ''-F'', ''-a'', ''-r'', ''3600m'', ''-k'', ''-t'', ''/etc/airflow.keytab'',
         ''-c'', ''/tmp/airflow_krb5_ccache'', ''airflow/worker1@EXAMPLE.COM'']]
   \<and> popen_commands (new_events init_state (fst (renew_from_kt
       ((example_env 0 0 None)\<lparr>conf := example_conf False False\<rparr>) None ''/etc/airflow.keytab''
       True init_state)))
     = [[''kinit'', ''-F'', ''-A'', ''-r'', ''3600m'', ''-k'', ''-t'', ''/etc/airflow.keytab'',
         ''-c'', ''/tmp/airflow_krb5_ccache'', ''airflow/worker1@EXAMPLE.COM'']]"
proof -
  let ?kt = "''/etc/airflow.keytab''"
  have cmd: "popen_commands (new_events init_state (fst (renew_from_kt
       ((example_env 0 0 None)\<lparr>conf := example_conf fw ip\<rparr>) None ?kt True init_state)))
     = [[''kinit'', if fw then ''-f'' else ''-F'', if ip then ''-a'' else ''-A'', ''-r'',
         ''3600m'', ''-k'', ''-t'', ?kt, ''-c'', ''/tmp/airflow_krb5_ccache'',
         ''airflow/worker1@EXAMPLE.COM'']]" for fw ip
  proof -
    let ?e = "(example_env 0 0 None)\<lparr>conf := example_conf fw ip\<rparr>"
    let ?run = "renew_from_kt ?e None ?kt True init_state"
    have c: "kerberos_kinit_path (conf ?e) = Some ''kinit''"
      "kerberos_forwardable (conf ?e) = Some fw" "kerberos_include_ip (conf ?e) = Some ip"
      "kerberos_reinit_frequency (conf ?e) = Some 3600"
      "kerberos_ccache (conf ?e) = Some ''/tmp/airflow_krb5_ccache''"
      by (simp_all add: example_conf_def)
    have p: "get_kerberos_principal ?e None = Inr ''airflow/worker1@EXAMPLE.COM''"
      by (simp add: get_kerberos_principal_def get_mandatory_value_def example_env_def
            example_conf_def)
    have run: "?run = (fst ?run, snd ?run)" by simp
    from renew_from_kt_command[OF c p run] show ?thesis by (simp add: str_int_3600)
  qed
  from cmd[of True True] cmd[of True False] cmd[of False True] cmd[of False False]
  show ?thesis by simp
qed

lemma directives_krb181_message: "directives krb181_message = 3"
  by (simp add: krb181_message_def)

lemma perform_krb181_workaround_incomplete:
  assumes "kerberos_kinit_path (conf e) = None \<or> kerberos_ccache (conf e) = None"
  shows "perform_krb181_workaround e p s = (s, Inl ConfigurationError)"
proof (cases "kerberos_kinit_path (conf e)")
  case None
  then show ?thesis
    unfolding perform_krb181_workaround_def by (simp only: bind_lift_Inl conf_reads)
next
  case (Some kinit)
  with assms have "kerberos_ccache (conf e) = None" by simp
  with Some show ?thesis
    unfolding perform_krb181_workaround_def
    by (simp only: bind_lift_Inl bind_lift_Inr conf_reads)
qed

text \<open>C8 (amended). When the workaround renewal exits with a status other than 0, the
  cache path is configured, and \<^verbatim>\<open>perform_krb181_workaround\<close> does one of two things. If a
  principal is given or one is configured, it logs one \<^verbatim>\<open>ERROR\<close> record whose message
  contains the cache path and the principal shown, and returns the status without ending
  the process; the principal shown is the given principal, or the configured one when the
  given one is empty, and in both cases it is followed by \<^verbatim>\<open>/\<close> and the host name. If no
  principal is given and none is configured, it raises the configuration error, logs no
  \<^verbatim>\<open>ERROR\<close> record and returns nothing.\<close>

theorem workaround_failure_diagnostic:
  assumes "perform_krb181_workaround e p s = (s', r)"
    and "Call cmdv (Answers ret) \<in> set (new_events s s')" and "ret \<noteq> 0"
  shows "kerberos_ccache (conf e) \<noteq> None
     \<and> (kerberos_ccache (conf e) = Some cc
          \<and> (if p \<noteq> [] then Some p else kerberos_principal (conf e)) = Some q \<longrightarrow>
          r = Inr ret
        \<and> filter is_error (new_events s s')
            = [Log ERROR krb181_message
                 [q @ ''/'' @ get_hostname e, cc, q @ ''/'' @ get_hostname e]]
        \<and> sublist (q @ ''/'' @ get_hostname e)
            (getMessage (Log ERROR krb181_message
                 [q @ ''/'' @ get_hostname e, cc, q @ ''/'' @ get_hostname e]))
        \<and> sublist cc
            (getMessage (Log ERROR krb181_message
                 [q @ ''/'' @ get_hostname e, cc, q @ ''/'' @ get_hostname e])))
     \<and> (p = [] \<and> kerberos_principal (conf e) = None \<longrightarrow>
          r = Inl ConfigurationError \<and> filter is_error (new_events s s') = [])"
proof -
  have "\<not> (kerberos_kinit_path (conf e) = None \<or> kerberos_ccache (conf e) = None)"
  proof
    assume "kerberos_kinit_path (conf e) = None \<or> kerberos_ccache (conf e) = None"
    from perform_krb181_workaround_incomplete[OF this, of p s] assms(1) have "s' = s" by simp
    with assms(2) show False by (simp add: new_events_same)
  qed
  then obtain kinit c where conf: "kerberos_kinit_path (conf e) = Some kinit"
    "kerberos_ccache (conf e) = Some c" by auto
  let ?w = "[kinit, ''-c'', c, ''-R'']"
  let ?l1 = "Log INFO ''Renewing kerberos ticket to work around kerberos 1.8.1: %s'' [join '' '' ?w]"
  let ?cans = "call_answer e (trace s @ [?l1]) ?w"
  note unfold = perform_krb181_workaround_complete[OF conf] Let_def new_events_def
  have ans: "?cans = Answers ret"
  proof (cases ?cans)
    case Fails
    with assms(1) have "new_events s s' = [?l1, Call ?w Fails]" by (auto simp add: unfold)
    with assms(2) show ?thesis by simp
  next
    case Hangs
    with assms(1) have "new_events s s' = [?l1, Call ?w Hangs]" by (auto simp add: unfold)
    with assms(2) show ?thesis by simp
  next
    case (Answers ret')
    with assms(1) have "Call cmdv (Answers ret) \<in> set (new_events s s') \<longrightarrow> ret = ret'"
      by (auto simp add: unfold conf_reads split: if_splits sum.splits)
    with assms(2) Answers show ?thesis by simp
  qed
  have shown_in: "sublist a (getMessage (Log ERROR krb181_message [x, y, z]))"
    if "a \<in> set [x, y, z]" for a x y z
    using percent_format_shows[OF _ that, of krb181_message]
    by (simp add: directives_krb181_message)
  have logged: "r = Inr ret \<and> filter is_error (new_events s s')
         = [Log ERROR krb181_message [q @ ''/'' @ get_hostname e, c, q @ ''/'' @ get_hostname e]]"
    if "(if p \<noteq> [] then Some p else kerberos_principal (conf e)) = Some q"
  proof -
    from that have "(if p \<noteq> [] then Inr p else conf_get (kerberos_principal (conf e))) = Inr q"
      by (auto simp: conf_reads split: if_splits)
    with assms(1,3) ans show ?thesis by (auto simp add: unfold)
  qed
  have missing: "r = Inl ConfigurationError \<and> filter is_error (new_events s s') = []"
    if "p = [] \<and> kerberos_principal (conf e) = None"
    using that assms(1,3) ans by (auto simp add: unfold conf_reads)
  from conf logged missing
    shown_in[of "q @ ''/'' @ get_hostname e" "q @ ''/'' @ get_hostname e" c
      "q @ ''/'' @ get_hostname e"]
    shown_in[of c "q @ ''/'' @ get_hostname e" c "q @ ''/'' @ get_hostname e"]
  show ?thesis by auto
qed

theorem workaround_failure_diagnostic_witness:
  "snd (perform_krb181_workaround (example_env 0 1 None) ''airflow'' init_state) = Inr 1
   \<and> filter is_error (new_events init_state
        (fst (perform_krb181_workaround (example_env 0 1 None) ''airflow'' init_state)))
      = [Log ERROR krb181_message
           [''airflow/worker1'', ''/tmp/airflow_krb5_ccache'', ''airflow/worker1'']]
   \<and> sublist ''airflow/worker1'' (getMessage (Log ERROR krb181_message
           [''airflow/worker1'', ''/tmp/airflow_krb5_ccache'', ''airflow/worker1'']))
   \<and> sublist ''/tmp/airflow_krb5_ccache'' (getMessage (Log ERROR krb181_message
           [''airflow/worker1'', ''/tmp/airflow_krb5_ccache'', ''airflow/worker1'']))
   \<and> snd (perform_krb181_workaround
        ((example_env 0 1 None)\<lparr>conf := (example_conf True True)\<lparr>kerberos_principal := None\<rparr>\<rparr>)
        [] init_state) = Inl ConfigurationError"
proof -
  let ?e = "example_env 0 1 None"
  let ?e' = "?e\<lparr>conf := (example_conf True True)\<lparr>kerberos_principal := None\<rparr>\<rparr>"
  let ?a = "perform_krb181_workaround ?e ''airflow'' init_state"
  let ?b = "perform_krb181_workaround ?e' [] init_state"
  have c: "kerberos_kinit_path (conf ?e) = Some ''kinit''"
    "kerberos_ccache (conf ?e) = Some ''/tmp/airflow_krb5_ccache''"
    by (simp_all add: example_env_def example_conf_def)
  have c': "kerberos_kinit_path (conf ?e') = Some ''kinit''"
    "kerberos_ccache (conf ?e') = Some ''/tmp/airflow_krb5_ccache''"
    by (simp_all add: example_conf_def)
  have a: "?a = (fst ?a, snd ?a)" and b: "?b = (fst ?b, snd ?b)" by simp_all
  have h: "get_hostname ?e = ''worker1''" by (simp add: example_env_def)
  have eva: "Call [''kinit'', ''-c'', ''/tmp/airflow_krb5_ccache'', ''-R''] (Answers 1)
      \<in> set (new_events init_state (fst ?a))"
    unfolding perform_krb181_workaround_complete[OF c]
    by (simp add: Let_def new_events_def init_state_def example_env_def)
  have evb: "Call [''kinit'', ''-c'', ''/tmp/airflow_krb5_ccache'', ''-R''] (Answers 1)
      \<in> set (new_events init_state (fst ?b))"
    unfolding perform_krb181_workaround_complete[OF c']
    by (simp add: Let_def new_events_def init_state_def example_env_def conf_reads)
  have n: "kerberos_principal (conf ?e') = None" by simp
  from workaround_failure_diagnostic[OF a eva, of "''/tmp/airflow_krb5_ccache''" "''airflow''"]
    workaround_failure_diagnostic[OF b evb] c n h
  show ?thesis by simp
qed

text \<open>An explicit principal is not shown unchanged: given \<^verbatim>\<open>airflow\<close> on the host
  \<^verbatim>\<open>worker1\<close>, the record shows \<^verbatim>\<open>airflow/worker1\<close>.\<close>

theorem workaround_failure_diagnostic_counterexample:
  "filter is_error (new_events init_state
        (fst (perform_krb181_workaround (example_env 0 1 None) ''airflow'' init_state)))
      = [Log ERROR krb181_message
           [''airflow/worker1'', ''/tmp/airflow_krb5_ccache'', ''airflow/worker1'']]
   \<and> filter is_error (new_events init_state
        (fst (perform_krb181_workaround (example_env 0 1 None) ''airflow'' init_state)))
      \<noteq> [Log ERROR krb181_message [''airflow'', ''/tmp/airflow_krb5_ccache'', ''airflow'']]"
proof -
  let ?e = "example_env 0 1 None"
  have c: "kerberos_kinit_path (conf ?e) = Some ''kinit''"
    "kerberos_ccache (conf ?e) = Some ''/tmp/airflow_krb5_ccache''"
    by (simp_all add: example_env_def example_conf_def)
  have "filter is_error (new_events init_state
        (fst (perform_krb181_workaround ?e ''airflow'' init_state)))
      = [Log ERROR krb181_message
           [''airflow/worker1'', ''/tmp/airflow_krb5_ccache'', ''airflow/worker1'']]"
    unfolding perform_krb181_workaround_complete[OF c]
    by (simp add: Let_def new_events_def init_state_def example_env_def)
  then show ?thesis by simp
qed

subsection \<open>The loop of the standard mode\<close>




lemma interval_sleep:
  assumes "kerberos_reinit_frequency (conf e) = Some freq"
  shows "bind (lift (getint (kerberos_reinit_frequency (conf e))))
           (\<lambda>freq. time_sleep (of_int freq)) s =
         (if freq < - 9223372036 \<or> 9223372036 < freq then (s, Inl OverflowError)
          else if freq < 0 then (s, Inl ValueError)
          else (s\<lparr>trace := trace s @ [Sleep (of_int freq)]\<rparr>, Inr ()))"
  by (simp add: assms conf_reads bind_lift_Inr time_sleep_def raise_def emit_def)

lemma interval_sleep_refused:
  assumes "kerberos_reinit_frequency (conf e) = Some freq" and "\<not> (0 \<le> freq \<and> freq \<le> 9223372036)"
  shows "\<exists>x. bind (lift (getint (kerberos_reinit_frequency (conf e))))
           (\<lambda>freq. time_sleep (of_int freq)) s = (s, Inl x)"
  using assms(2) by (auto simp: interval_sleep[OF assms(1)])

lemma interval_sleep_accepted:
  assumes "kerberos_reinit_frequency (conf e) = Some freq" and "0 \<le> freq \<and> freq \<le> 9223372036"
  shows "bind (lift (getint (kerberos_reinit_frequency (conf e))))
           (\<lambda>freq. time_sleep (of_int freq)) s
         = (s\<lparr>trace := trace s @ [Sleep (of_int freq)]\<rparr>, Inr ())"
  using assms(2) by (auto simp: interval_sleep[OF assms(1)])



lemma run_standard:
  "keytab \<noteq> [] \<Longrightarrow>
   run e fuel princ keytab STANDARD s =
     standard_loop e princ keytab fuel
       (s\<lparr>trace := trace s @ [Log INFO ''Using airflow kerberos with mode: %s'' [''standard'']]\<rparr>)"
  by (simp add: run_def log_info_def emit_def)






text \<open>Through the loop and through \<^verbatim>\<open>run\<close>, a global that holds a value keeps it.\<close>

lemma standard_loop_keeps:
  "standard_loop e princ keytab fuel s = (s', r) \<Longrightarrow> NEED_KRB181_WORKAROUND s = Some b \<Longrightarrow>
     trace s' = trace s @ new_events s s'
     \<and> NEED_KRB181_WORKAROUND s' = Some b \<and> filter is_Open_rb (new_events s s') = []"
proof (induction fuel arbitrary: s s' r)
  case 0
  then show ?case by (auto simp: new_events_same)
next
  case (Suc fuel)
  obtain s1 r1 where 1: "renew_from_kt e princ keytab True s = (s1, r1)"
    by (cases "renew_from_kt e princ keytab True s") auto
  from lazy_detection[OF 1] Suc.prems(2)
  have k1: "NEED_KRB181_WORKAROUND s1 = Some b" "filter is_Open_rb (new_events s s1) = []"
    by blast+
  note ext = renew_from_kt_extends[OF 1]
  have stop: ?case if "s' = s1" using that k1 ext by simp
  show ?case
  proof (cases r1)
    case (Inl x)
    with Suc.prems(1) 1 have "s' = s1" by simp
    then show ?thesis by (rule stop)
  next
    case (Inr v)
    show ?thesis
    proof (cases "kerberos_reinit_frequency (conf e)")
      case None
      with Suc.prems(1) 1 Inr have "s' = s1" by (simp add: conf_reads bind_lift_Inl)
      then show ?thesis by (rule stop)
    next
      case (Some freq)
      show ?thesis
      proof (cases "0 \<le> freq \<and> freq \<le> 9223372036")
        case False
        from interval_sleep_refused[OF Some False, of s1] obtain y where
          "bind (lift (getint (kerberos_reinit_frequency (conf e))))
             (\<lambda>freq. time_sleep (of_int freq)) s1 = (s1, Inl y)" by blast
        with Suc.prems(1) 1 Inr have "s' = s1" by simp
        then show ?thesis by (rule stop)
      next
        case True
        let ?s2 = "s1\<lparr>trace := trace s1 @ [Sleep (of_int freq)]\<rparr>"
        from Suc.prems(1) 1 Inr have "standard_loop e princ keytab fuel ?s2 = (s', r)"
          by (simp add: interval_sleep_accepted[OF Some True])
        from Suc.IH[OF this] k1(1) have
          t: "trace s' = trace ?s2 @ new_events ?s2 s'"
          and n: "NEED_KRB181_WORKAROUND s' = Some b"
          and f: "filter is_Open_rb (new_events ?s2 s') = []"
          by simp_all
        from t ext have tr: "trace s' = trace s @ new_events s s1 @ Sleep (of_int freq) # new_events ?s2 s'"
          by simp
        then have ne: "new_events s s' = new_events s s1 @ Sleep (of_int freq) # new_events ?s2 s'"
          by (rule new_events_append)
        from tr ne n f k1(2) show ?thesis by simp
      qed
    qed
  qed
qed

lemma run_keeps:
  assumes run: "run e fuel princ keytab mode s = (s', r)"
    and need: "NEED_KRB181_WORKAROUND s = Some b"
  shows "NEED_KRB181_WORKAROUND s' = Some b \<and> filter is_Open_rb (new_events s s') = []"
proof (cases "keytab = []")
  case True
  with empty_keytab_events[of e fuel princ mode s] run need show ?thesis by auto
next
  case False
  show ?thesis
  proof (cases mode)
    case STANDARD
    let ?s0 = "s\<lparr>trace := trace s @ [Log INFO ''Using airflow kerberos with mode: %s'' [''standard'']]\<rparr>"
    from run False STANDARD have loop: "standard_loop e princ keytab fuel ?s0 = (s', r)"
      by (simp add: run_standard)
    from standard_loop_keeps[OF loop, of b] need have
      t: "trace s' = trace ?s0 @ new_events ?s0 s'" and n: "NEED_KRB181_WORKAROUND s' = Some b"
      and f: "filter is_Open_rb (new_events ?s0 s') = []"
      by simp_all
    from t have "trace s' = trace s @ Log INFO ''Using airflow kerberos with mode: %s'' [''standard'']
      # new_events ?s0 s'" by simp
    then have "new_events s s' = Log INFO ''Using airflow kerberos with mode: %s'' [''standard'']
      # new_events ?s0 s'" by (rule new_events_append)
    with n f show ?thesis by simp
  next
    case ONE_TIME
    with False run obtain s0 r2 where
      s0: "s0 = s\<lparr>trace := trace s @ [Log INFO ''Using airflow kerberos with mode: %s'' [''one-time'']]\<rparr>"
      and 2: "renew_from_kt e princ keytab True s0 = (s', r2)"
      and ev: "new_events s s' = Log INFO ''Using airflow kerberos with mode: %s'' [''one-time'']
        # new_events s0 s'"
      by (auto elim: run_one_time_events)
    from lazy_detection[OF 2] need s0 have "NEED_KRB181_WORKAROUND s' = Some b"
      "filter is_Open_rb (new_events s0 s') = []" by simp_all
    with ev show ?thesis by simp
  qed
qed

text \<open>C1. The global starts unset. Within one call of \<^verbatim>\<open>renew_from_kt\<close>: the ticket
  cache is opened (the detection runs) only if the global was unset and \<^verbatim>\<open>kinit\<close> exited
  with 0, and then exactly once; a global that holds a value keeps it and the cache is not
  opened; whenever the call leaves the global at true after a successful \<^verbatim>\<open>kinit\<close>
  (the first detection found the marker, or the value was already true), the workaround
  renewal is called exactly once in that call; otherwise it is not called at all; and a
  detection that read the cache sets the global to whether the marker is in it. Through a
  whole \<^verbatim>\<open>run\<close>, in either mode and for any number of cycles, a global that holds a
  value keeps it and the cache is never opened.\<close>

theorem workaround_state_lazy:
  "NEED_KRB181_WORKAROUND init_state = None
   \<and> (renew_from_kt e princ keytab x s = (s', r) \<longrightarrow>
        (filter is_Open_rb (new_events s s') \<noteq> [] \<longrightarrow>
            NEED_KRB181_WORKAROUND s = None \<and> list_ex kinit_ok (new_events s s'))
      \<and> (NEED_KRB181_WORKAROUND s = None \<and> list_ex kinit_ok (new_events s s') \<longrightarrow>
            length (filter is_Open_rb (new_events s s')) = 1)
      \<and> (\<forall>b. NEED_KRB181_WORKAROUND s = Some b \<longrightarrow>
            NEED_KRB181_WORKAROUND s' = Some b \<and> filter is_Open_rb (new_events s s') = [])
      \<and> (NEED_KRB181_WORKAROUND s' = Some True \<and> list_ex kinit_ok (new_events s s') \<longrightarrow>
            length (filter is_Call (new_events s s')) = 1)
      \<and> (NEED_KRB181_WORKAROUND s' \<noteq> Some True \<longrightarrow> filter is_Call (new_events s s') = [])
      \<and> (\<forall>f data. Open_rb f (Some data) \<in> set (new_events s s') \<longrightarrow>
            NEED_KRB181_WORKAROUND s' = Some (bytes_in ''X-CACHECONF:'' data)))
   \<and> (run e fuel princ keytab mode s = (s', r') \<and> NEED_KRB181_WORKAROUND s = Some b \<longrightarrow>
        NEED_KRB181_WORKAROUND s' = Some b \<and> filter is_Open_rb (new_events s s') = [])"
  (is "_ \<and> (?run \<longrightarrow> ?treated) \<and> ?kept")
proof (intro conjI)
  show "NEED_KRB181_WORKAROUND init_state = None" by (simp add: init_state_def)
next
  show "?run \<longrightarrow> ?treated"
  proof (rule impI)
    assume ?run
    from lazy_detection[OF this] show ?treated by blast
  qed
next
  show ?kept using run_keeps[of e fuel princ keytab mode s s' r' b] by blast
qed

text \<open>Two renewals in a row in a world whose ticket cache holds the marker: the first
  opens the cache once, sets the global to true and calls the workaround once; the second
  does not open the cache and calls the workaround once again.\<close>

theorem workaround_state_lazy_witness:
  "NEED_KRB181_WORKAROUND init_state = None
   \<and> NEED_KRB181_WORKAROUND
       (fst (renew_from_kt (example_env 0 0 (Some ''krb5 X-CACHECONF: conf'')) None
               ''/etc/airflow.keytab'' True init_state)) = Some True
   \<and> length (filter is_Open_rb (new_events init_state
       (fst (renew_from_kt (example_env 0 0 (Some ''krb5 X-CACHECONF: conf'')) None
               ''/etc/airflow.keytab'' True init_state)))) = 1
   \<and> length (filter is_Call (new_events init_state
       (fst (renew_from_kt (example_env 0 0 (Some ''krb5 X-CACHECONF: conf'')) None
               ''/etc/airflow.keytab'' True init_state)))) = 1
   \<and> filter is_Open_rb (new_events
       (fst (renew_from_kt (example_env 0 0 (Some ''krb5 X-CACHECONF: conf'')) None
               ''/etc/airflow.keytab'' True init_state))
       (fst (renew_from_kt (example_env 0 0 (Some ''krb5 X-CACHECONF: conf'')) None
               ''/etc/airflow.keytab'' True
          (fst (renew_from_kt (example_env 0 0 (Some ''krb5 X-CACHECONF: conf'')) None
               ''/etc/airflow.keytab'' True init_state))))) = []
   \<and> length (filter is_Call (new_events
       (fst (renew_from_kt (example_env 0 0 (Some ''krb5 X-CACHECONF: conf'')) None
               ''/etc/airflow.keytab'' True init_state))
       (fst (renew_from_kt (example_env 0 0 (Some ''krb5 X-CACHECONF: conf'')) None
               ''/etc/airflow.keytab'' True
          (fst (renew_from_kt (example_env 0 0 (Some ''krb5 X-CACHECONF: conf'')) None
               ''/etc/airflow.keytab'' True init_state)))))) = 1"
proof -
  let ?e = "example_env 0 0 (Some ''krb5 X-CACHECONF: conf'')"
  let ?kt = "''/etc/airflow.keytab''"
  let ?a = "renew_from_kt ?e None ?kt True init_state"
  let ?b = "renew_from_kt ?e None ?kt True (fst ?a)"
  have a: "?a = (fst ?a, snd ?a)" and b: "?b = (fst ?b, snd ?b)" by simp_all
  have i: "NEED_KRB181_WORKAROUND init_state = None" by (simp add: init_state_def)
  have oka: "list_ex kinit_ok (new_events init_state (fst ?a))"
    and okb: "list_ex kinit_ok (new_events (fst ?a) (fst ?b))"
    by (rule kinit_ok_in[OF example_spawned])+
  from renew_from_kt_detects[OF a i oka]
  obtain f where rd: "Open_rb f (Some ''krb5 X-CACHECONF: conf'') \<in> set (new_events init_state (fst ?a))"
    by (auto simp: example_env_def)
  note A = workaround_state_lazy[of ?e None ?kt True init_state "fst ?a" "snd ?a",
      THEN conjunct2, THEN conjunct1, THEN mp, OF a]
  note B = workaround_state_lazy[of ?e None ?kt True "fst ?a" "fst ?b" "snd ?b",
      THEN conjunct2, THEN conjunct1, THEN mp, OF b]
  from A rd have "NEED_KRB181_WORKAROUND (fst ?a) = Some (bytes_in ''X-CACHECONF:'' ''krb5 X-CACHECONF: conf'')"
    by blast
  then have na: "NEED_KRB181_WORKAROUND (fst ?a) = Some True" by simp
  from A i oka have oa: "length (filter is_Open_rb (new_events init_state (fst ?a))) = 1" by blast
  from A na oka have ca: "length (filter is_Call (new_events init_state (fst ?a))) = 1" by blast
  from B na have nb: "NEED_KRB181_WORKAROUND (fst ?b) = Some True"
    and ob: "filter is_Open_rb (new_events (fst ?a) (fst ?b)) = []" by blast+
  from B nb okb have cb: "length (filter is_Call (new_events (fst ?a) (fst ?b))) = 1" by blast
  from i na oa ca ob cb show ?thesis by blast
qed

end
